theory Spec2Isabelle
  imports Complex_Main "HOL-Library.Word"
begin

unbundle bit_operations_syntax

section \<open>Shared data\<close>

text \<open>
  An \<open>error\<close> value of the Go code is represented by the text its \<open>Error()\<close> method
  returns; \<open>nil\<close> is \<open>None\<close> of \<open>error option\<close>, and a Go result pair
  \<open>(value, err)\<close> is \<open>error + value\<close> with \<open>Inl\<close> for the error.
\<close>

type_synonym error = string
type_synonym byte = "8 word"
type_synonym int64 = "64 word"

text \<open>\<open>blockchain.StorageNode\<close>: the two fields the code reads.\<close>

record StorageNode =
  ID :: string
  Baseurl :: string

text \<open>
  Decimal formatting of an integer, the digits with a leading minus sign for a negative
  value: \<open>%d\<close> of \<open>fmt\<close> on an \<open>int\<close>, and \<open>strconv.FormatInt(i, 10)\<close> on an
  \<open>int64\<close>.
\<close>

fun dec_nat :: "nat \<Rightarrow> string" where
  "dec_nat n = (if n < 10 then [''0123456789'' ! n]
                else dec_nat (n div 10) @ [''0123456789'' ! (n mod 10)])"

declare dec_nat.simps [simp del]

definition Itoa :: "int \<Rightarrow> string" where
  "Itoa i = (if i < 0 then ''-'' @ dec_nat (nat (- i)) else dec_nat (nat i))"

definition FormatInt :: "int64 \<Rightarrow> string" where
  "FormatInt i = Itoa (sint i)"

section \<open>Commit worker pool\<close>

text \<open>
  The package-level registry \<open>commitChan\<close> (a map from blobber id to channel, \<open>nil\<close>
  before the first call) together with what \<open>InitCommitWorker\<close> does to the rest of the
  process: \<open>make(chan)\<close> allocates a fresh channel, here the next unused number, and
  \<open>go startCommitWorker(blobberChan, blobber.ID)\<close> starts a worker, recorded in
  \<open>workers\<close> with the channel and the id it was started on. The calls run under
  \<open>initCommitMutex\<close>, so a call is one atomic step of the pool. A worker removes its
  entry only when its channel is closed, which no code of the package does.
\<close>

record Pool =
  commitChan :: "(string \<rightharpoonup> nat) option"
  workers :: "(nat \<times> string) list"
  nextChan :: nat

definition initPool :: Pool where
  "initPool = \<lparr>commitChan = None, workers = [], nextChan = 0\<rparr>"

text \<open>Reading a \<open>nil\<close> map finds no key.\<close>

definition registry :: "Pool \<Rightarrow> (string \<rightharpoonup> nat)" where
  "registry st = (case commitChan st of None \<Rightarrow> Map.empty | Some m \<Rightarrow> m)"

text \<open>The body of the loop over \<open>blobbers\<close>.\<close>

definition registerBlobber :: "Pool \<Rightarrow> StorageNode \<Rightarrow> Pool" where
  "registerBlobber st blobber =
     (case registry st (ID blobber) of
        Some _ \<Rightarrow> st
      | None \<Rightarrow>
          st\<lparr>commitChan := Some ((registry st)(ID blobber \<mapsto> nextChan st)),
             workers := workers st @ [(nextChan st, ID blobber)],
             nextChan := Suc (nextChan st)\<rparr>)"

definition InitCommitWorker :: "StorageNode list \<Rightarrow> Pool \<Rightarrow> Pool" where
  "InitCommitWorker blobbers st =
     foldl registerBlobber
       (if commitChan st = None then st\<lparr>commitChan := Some Map.empty\<rparr> else st) blobbers"

text \<open>Any number of calls of the initializer, starting from the fresh process.\<close>

definition runInits :: "StorageNode list list \<Rightarrow> Pool" where
  "runInits calls = foldl (\<lambda>st blobbers. InitCommitWorker blobbers st) initPool calls"

text \<open>The node ids supplied over all the calls.\<close>

definition suppliedIDs :: "StorageNode list list \<Rightarrow> string set" where
  "suppliedIDs calls = (\<Union>blobbers \<in> set calls. ID ` set blobbers)"

text \<open>
  Registry and workers agree: one worker per registered id, started on the channel the
  registry holds for that id, and no channel is shared.
\<close>

definition pool_ok :: "Pool \<Rightarrow> bool" where
  "pool_ok st \<longleftrightarrow>
     distinct (map snd (workers st)) \<and>
     distinct (map fst (workers st)) \<and>
     set (map snd (workers st)) = dom (registry st) \<and>
     (\<forall>(ch, k) \<in> set (workers st). registry st k = Some ch \<and> ch < nextChan st)"

section \<open>Thumbnail shard dispatch\<close>

text \<open>
  The result of a call is \<open>Returned v\<close> with the value the Go function returns, or
  \<open>Panicked msg\<close> where the Go runtime panics (an index out of range, a nil
  dereference). Every operation returns the state reached next to it.
\<close>

datatype 'a outcome = is_Returned: Returned (returned: 'a) | Panicked string

text \<open>
  \<open>bits.TrailingZeros32\<close>: the index of the lowest set bit, and 32 for the value 0.
\<close>

definition TrailingZeros32 :: "32 word \<Rightarrow> nat" where
  "TrailingZeros32 x = (case find (bit x) [0..<32] of None \<Rightarrow> 32 | Some n \<Rightarrow> n)"

lemma TrailingZeros32_find:
  assumes "i \<noteq> 0"
  shows "find (bit i) [0..<32] = Some (TrailingZeros32 i)"
proof -
  from assms obtain n where n: "bit i n" by (auto simp: bit_eq_iff)
  then have "n < 32" using bit_imp_le_length [of i n] by simp
  with n have "find (bit i) [0..<32] \<noteq> None"
    by (auto simp: find_None_iff simp del: upt_rec_numeral)
  then show ?thesis by (auto simp: TrailingZeros32_def)
qed

lemma TrailingZeros32_bit: "i \<noteq> 0 \<Longrightarrow> bit i (TrailingZeros32 i)"
  using TrailingZeros32_find [of i] by (auto simp: find_Some_iff simp del: upt_rec_numeral)

lemma clear_lowest_less:
  fixes i :: "32 word"
  assumes "i \<noteq> 0"
  shows "unat (i AND NOT (push_bit (TrailingZeros32 i) 1)) < unat i"
proof -
  let ?j = "i AND NOT (push_bit (TrailingZeros32 i) 1)"
  have le: "?j \<le> i" by (rule word_and_le2)
  have "\<not> bit ?j (TrailingZeros32 i)" by (simp add: bit_simps)
  with TrailingZeros32_bit [OF assms] have "?j \<noteq> i" by metis
  with le have "?j < i" by simp
  then show ?thesis by (simp add: word_less_nat_alt)
qed

text \<open>
  The loop of \<open>pushThumbnailData\<close>:
  \<^verbatim>\<open>for i := req.uploadMask; i != 0; i &= ^(1 << uint32(pos)) {
       pos = bits.TrailingZeros32(i); req.uploadThumbCh[c] <- shards[pos]; c++ }\<close>
  A channel is a number; a send appends the channel and the payload to the log of
  sends, in the order the sends happen. Indexing \<open>uploadThumbCh\<close> or \<open>shards\<close> out
  of range panics. (A send on a channel nobody reads blocks the sender; the log records
  the sends of a run in which every send is taken.)
\<close>

function sendShards ::
  "nat list \<Rightarrow> byte list list \<Rightarrow> 32 word \<Rightarrow> nat \<Rightarrow> (nat \<times> byte list) list
     \<Rightarrow> unit outcome \<times> (nat \<times> byte list) list" where
  "sendShards chans shards i c sends =
     (if i = 0 then (Returned (), sends)
      else let pos = TrailingZeros32 i in
        if \<not> c < length chans then (Panicked ''index out of range'', sends)
        else if \<not> pos < length shards then (Panicked ''index out of range'', sends)
        else sendShards chans shards (i AND NOT (push_bit pos 1)) (c + 1)
               (sends @ [(chans ! c, shards ! pos)]))"
  by pat_completeness auto
termination
  by (relation "measure (\<lambda>(chans, shards, i, c, sends). unat i)")
     (auto simp: clear_lowest_less simp del: push_bit_of_1)

declare sendShards.simps [simp del]

text \<open>The same loop in \<open>completeThumbnailPush\<close>, sending \<open>[]byte("done")\<close>.\<close>

definition done_bytes :: "byte list" where
  "done_bytes = [0x64, 0x6F, 0x6E, 0x65]"

function sendDone ::
  "nat list \<Rightarrow> 32 word \<Rightarrow> nat \<Rightarrow> (nat \<times> byte list) list
     \<Rightarrow> unit outcome \<times> (nat \<times> byte list) list" where
  "sendDone chans i c sends =
     (if i = 0 then (Returned (), sends)
      else let pos = TrailingZeros32 i in
        if \<not> c < length chans then (Panicked ''index out of range'', sends)
        else sendDone chans (i AND NOT (push_bit pos 1)) (c + 1)
               (sends @ [(chans ! c, done_bytes)]))"
  by pat_completeness auto
termination
  by (relation "measure (\<lambda>(chans, i, c, sends). unat i)")
     (auto simp: clear_lowest_less simp del: push_bit_of_1)

declare sendDone.simps [simp del]

text \<open>
  \<open>float64(x)\<close> for an integer \<open>x\<close>, as the integer the float denotes: \<open>x\<close> itself
  up to 53 bits, beyond that the nearest multiple of the unit in the last place, ties to
  the even significand.
\<close>

fun bitlen :: "nat \<Rightarrow> nat" where
  "bitlen n = (if n = 0 then 0 else Suc (bitlen (n div 2)))"

declare bitlen.simps [simp del]

definition float64 :: "int \<Rightarrow> int" where
  "float64 x =
     (let a = nat \<bar>x\<bar> in
      if a \<le> 2 ^ 53 then x
      else let e = bitlen a - 53; q = a div 2 ^ e; r = a mod 2 ^ e;
               q' = (if 2 ^ e < 2 * r \<or> (2 * r = 2 ^ e \<and> odd q) then q + 1 else q)
           in sgn x * int (q' * 2 ^ e))"

text \<open>
  The fields of \<open>UploadRequest\<close> the thumbnail functions use. \<open>thumbnailHash\<close> is the
  running hash, held as the bytes written into it so far (\<open>thumbnailHashWr\<close> writes
  into it); \<open>ThumbnailHash\<close> is \<open>filemeta.ThumbnailHash\<close>; \<open>uploadThumbCh\<close> is the
  slice of channels and \<open>sent\<close> the log of the sends made on them.
\<close>

record UploadRequest =
  thumbRemaining :: int64
  isRepair :: bool
  thumbnailHash :: "byte list"
  datashards :: int
  parityshards :: int
  uploadMask :: "32 word"
  uploadThumbCh :: "nat list"
  sent :: "(nat \<times> byte list) list"
  ThumbnailHash :: string

text \<open>
  \<open>encoder.NewEncoder\<close> is a parameter: it fails or gives an encoder, which is its
  \<open>Encode\<close> method, failing or giving the shards.

  \<open>n\<close> is \<open>int64(math.Min(float64(req.thumbRemaining), float64(len(data))))\<close>: the
  minimum is an integer no greater than \<open>float64(len(data))\<close>, and the conversion
  keeps it. The slice \<open>data[:n]\<close> is taken only when not repairing and panics for
  \<open>n\<close> out of range. The fields are updated before the encoder is made, so they stay
  updated when the encoder fails.
\<close>

definition pushThumbnailData ::
  "(int \<Rightarrow> int \<Rightarrow> error + (byte list \<Rightarrow> error + byte list list))
     \<Rightarrow> UploadRequest \<Rightarrow> byte list \<Rightarrow> error option outcome \<times> UploadRequest" where
  "pushThumbnailData NewEncoder req data =
     (let n = (word_of_int (min (float64 (sint (thumbRemaining req)))
                                (float64 (int (length data)))) :: int64)
      in if \<not> isRepair req \<and> (sint n < 0 \<or> int (length data) < sint n)
         then (Panicked ''slice bounds out of range'', req)
         else
           let req1 = (if \<not> isRepair req
                       then req\<lparr>thumbnailHash := thumbnailHash req @ take (nat (sint n)) data\<rparr>
                       else req);
               req2 = req1\<lparr>thumbRemaining := thumbRemaining req1 - n\<rparr>
           in case NewEncoder (datashards req2) (parityshards req2) of
                Inl err \<Rightarrow> (Returned (Some err), req2)
              | Inr Encode \<Rightarrow>
                  (case Encode data of
                     Inl err \<Rightarrow> (Returned (Some err), req2)
                   | Inr shards \<Rightarrow>
                       (case sendShards (uploadThumbCh req2) shards (uploadMask req2) 0 (sent req2) of
                          (Panicked msg, sends) \<Rightarrow> (Panicked msg, req2\<lparr>sent := sends\<rparr>)
                        | (Returned _, sends) \<Rightarrow> (Returned None, req2\<lparr>sent := sends\<rparr>))))"

text \<open>\<open>hex.EncodeToString\<close>: two lower-case hexadecimal digits per byte.\<close>

definition EncodeToString :: "byte list \<Rightarrow> string" where
  "EncodeToString bs =
     concat (map (\<lambda>b. [''0123456789abcdef'' ! (unat b div 16),
                        ''0123456789abcdef'' ! (unat b mod 16)]) bs)"

text \<open>
  \<open>hashSum\<close> is the digest the hash gives for the bytes written into it
  (\<open>req.thumbnailHash.Sum(nil)\<close>), a parameter.
\<close>

definition completeThumbnailPush ::
  "(byte list \<Rightarrow> byte list) \<Rightarrow> UploadRequest \<Rightarrow> error option outcome \<times> UploadRequest" where
  "completeThumbnailPush hashSum req =
     (if \<not> isRepair req then
        let req1 = req\<lparr>ThumbnailHash := EncodeToString (hashSum (thumbnailHash req))\<rparr>
        in case sendDone (uploadThumbCh req1) (uploadMask req1) 0 (sent req1) of
             (Panicked msg, sends) \<Rightarrow> (Panicked msg, req1\<lparr>sent := sends\<rparr>)
           | (Returned _, sends) \<Rightarrow> (Returned None, req1\<lparr>sent := sends\<rparr>)
      else (Returned None, req))"

text \<open>The set bits of a mask, in ascending order of bit index.\<close>

definition setBits :: "32 word \<Rightarrow> nat list" where
  "setBits i = filter (bit i) [0..<32]"

section \<open>Write markers and the commit of one request\<close>

text \<open>
  \<open>marker.WriteMarker\<close> with the fields the commit sets (\<open>WMSize\<close> is its field
  \<open>Size\<close>).
\<close>

record WriteMarker =
  AllocationRoot :: string
  PreviousAllocationRoot :: string
  AllocationID :: string
  WMSize :: int64
  BlobberID :: string
  Timestamp :: int64
  ClientID :: string
  Signature :: string

text \<open>
  A reference of package \<open>fileref\<close>, directory or file: what its methods \<open>GetType\<close>,
  \<open>GetName\<close>, \<open>GetPath\<close> and \<open>GetNumBlocks\<close> return, its field \<open>Hash\<close>, its
  children, and, when the Go value is a \<open>*fileref.FileRef\<close>, the file fields the code
  reads after the type assertion \<open>child.(*fileref.FileRef)\<close>.
\<close>

record FileRefFields =
  ActualFileHash :: string
  FileSize :: int64
  FileMimeType :: string

datatype RefEntity =
  RefEntity (GetType: string) (GetName: string) (GetPath: string) (RefHash: string)
    (GetNumBlocks: int64) (RefChildren: "RefEntity list") (AsFileRef: "FileRefFields option")

text \<open>
  The interface \<open>allocationchange.AllocationChange\<close>, a record of its three methods.
  \<open>ProcessChange\<close> changes the tree it is given in place and returns an error or nil:
  here it returns both the error and the tree it leaves.
\<close>

record AllocationChange =
  ProcessChange :: "RefEntity \<Rightarrow> error option \<times> RefEntity"
  GetAffectedPath :: string
  GetSize :: int64

record CommitResult =
  Success :: bool
  ErrorMessage :: string

definition ErrorCommitResult :: "string \<Rightarrow> CommitResult" where
  "ErrorCommitResult errMsg = \<lparr>Success = False, ErrorMessage = errMsg\<rparr>"

definition SuccessCommitResult :: CommitResult where
  "SuccessCommitResult = \<lparr>Success = True, ErrorMessage = ''''\<rparr>"

text \<open>
  \<open>wg\<close> is the counter of the request's wait group and \<open>result\<close> the result slot,
  \<open>None\<close> while it is nil.
\<close>

record CommitRequest =
  changes :: "AllocationChange list"
  blobber :: StorageNode
  allocationID :: string
  connectionID :: string
  wg :: int
  result :: "CommitResult option"

text \<open>
  The requests that go to the network through \<open>zboxutil.HttpDo\<close>: the reference path
  request (base url, allocation id, path), the commit request (base url, allocation
  id, the fields of the multipart form) and the list request (base url, allocation id,
  path). What comes back is a transport error, or a
  response with its status code and the result of reading its body.
\<close>

datatype request =
  ReferencePathRequest string string string
| CommitHTTPRequest string string "(string \<times> string) list"
| ListHTTPRequest string string string

datatype http_reply = TransportError error | Response int "error + string"

text \<open>
  The decoded body of the reference path response: the embedded
  \<open>fileref.ReferencePath\<close>, of which the code uses \<open>GetDirTree\<close> (an error with a nil
  tree, or the tree), and the latest write marker, \<open>None\<close> for nil.
\<close>

record ReferencePathResult =
  GetDirTree :: "string \<Rightarrow> error + RefEntity"
  LatestWM :: "WriteMarker option"

text \<open>
  The collaborators, all of other packages: request construction and transport
  (\<open>zboxutil\<close>), JSON decoding and encoding, the client's keys and id, signing and
  verification of markers, the tree hash, \<open>encryption.Hash\<close>, the clock and
  \<open>common.NewError\<close> (which gives the text of the error it builds). \<open>HttpDo\<close> gives
  the reply its callback receives, and returns what the callback returns. For the
  listing: the decoded \<open>fileref.ListResult\<close> is its method \<open>GetDirTree\<close>; the
  constants \<open>fileref.DIRECTORY\<close> and \<open>fileref.FILE\<close>; and \<open>isConsensusMin\<close> of
  the embedded \<open>Consensus\<close>, a function of its three fields.
\<close>

record Env =
  NewReferencePathRequest :: "string \<Rightarrow> string \<Rightarrow> string \<Rightarrow> error option"
  HttpDo :: "request \<Rightarrow> http_reply"
  Unmarshal :: "string \<Rightarrow> error + ReferencePathResult"
  GetClientPublicKey :: string
  VerifySignature :: "WriteMarker \<Rightarrow> string \<Rightarrow> error option"
  CalculateHash :: "RefEntity \<Rightarrow> RefEntity"
  encryption_Hash :: "string \<Rightarrow> string"
  Now :: int64
  GetClientID :: string
  Sign :: "WriteMarker \<Rightarrow> error + string"
  Marshal :: "WriteMarker \<Rightarrow> error + string"
  NewCommitRequest :: "string \<Rightarrow> string \<Rightarrow> (string \<times> string) list \<Rightarrow> error option"
  NewError :: "string \<Rightarrow> string \<Rightarrow> error"
  NewListRequest :: "string \<Rightarrow> string \<Rightarrow> string \<Rightarrow> error option"
  UnmarshalListResult :: "string \<Rightarrow> error + (string \<Rightarrow> error + RefEntity)"
  DIRECTORY :: string
  FILE :: string
  isConsensusMin :: "int \<Rightarrow> real \<Rightarrow> real \<Rightarrow> bool"

text \<open>
  \<open>commitreq.result = res; commitreq.wg.Done(); return\<close>. \<open>Done\<close> panics when the
  counter becomes negative.
\<close>

definition finish ::
  "CommitResult \<Rightarrow> CommitRequest \<Rightarrow> request list
     \<Rightarrow> unit outcome \<times> CommitRequest \<times> request list" where
  "finish res req net =
     (let req' = req\<lparr>result := Some res, wg := wg req - 1\<rparr>
      in if wg req' < 0 then (Panicked ''sync: negative WaitGroup counter'', req', net)
         else (Returned (), req', net))"

text \<open>
  The fetch of \<open>processCommit\<close>: \<open>HttpDo\<close> with its callback, giving the error
  \<open>HttpDo\<close> returns or the decoded \<open>lR\<close>.
\<close>

definition fetchReferencePath :: "Env \<Rightarrow> request \<Rightarrow> error + ReferencePathResult" where
  "fetchReferencePath env httpreq =
     (case HttpDo env httpreq of
        TransportError err \<Rightarrow> Inl err
      | Response StatusCode body \<Rightarrow>
          (case body of
             Inl err \<Rightarrow> Inl err
           | Inr resp_body \<Rightarrow>
               if StatusCode \<noteq> 200
               then Inl (''List error response: Status: '' @ Itoa StatusCode @ '' - ''
                         @ resp_body @ '' '')
               else (case Unmarshal env resp_body of
                       Inl err \<Rightarrow> Inl err
                     | Inr lR \<Rightarrow> Inr lR)))"

text \<open>
  The check of the latest write marker and of the tree. With a marker, \<open>err\<close> is
  overwritten by the result of \<open>VerifySignature\<close>, so an error of \<open>GetDirTree\<close> is
  lost there and its nil tree is dereferenced by \<open>rootRef.CalculateHash()\<close>; without a
  marker the error of \<open>GetDirTree\<close> ends the attempt.
\<close>

datatype verified = Abort error | NilDereference | Verified RefEntity

definition verifyLatestWM :: "Env \<Rightarrow> CommitRequest \<Rightarrow> ReferencePathResult \<Rightarrow> verified" where
  "verifyLatestWM env commitreq lR =
     (case LatestWM lR of
        Some latest \<Rightarrow>
          (case VerifySignature env latest (GetClientPublicKey env) of
             Some err \<Rightarrow> Abort err
           | None \<Rightarrow>
               (case GetDirTree lR (allocationID commitreq) of
                  Inl _ \<Rightarrow> NilDereference
                | Inr rootRef \<Rightarrow>
                    let rootRef' = CalculateHash env rootRef;
                        prevAllocationRoot =
                          encryption_Hash env (RefHash rootRef' @ '':'' @ FormatInt (Timestamp latest))
                    in if prevAllocationRoot \<noteq> AllocationRoot latest
                       then Abort ''Allocation root from latest writemarker mismatch''
                       else Verified rootRef'))
      | None \<Rightarrow>
          (case GetDirTree lR (allocationID commitreq) of
             Inl err \<Rightarrow> Abort err
           | Inr rootRef \<Rightarrow> Verified rootRef))"

text \<open>
  The loop over the changes: it stops at the first change that fails, and adds the size
  of each change that succeeded (\<open>int64\<close> addition).
\<close>

fun applyChanges ::
  "AllocationChange list \<Rightarrow> RefEntity \<Rightarrow> int64 \<Rightarrow> error option \<times> RefEntity \<times> int64" where
  "applyChanges [] rootRef size' = (None, rootRef, size')"
| "applyChanges (change # rest) rootRef size' =
     (case ProcessChange change rootRef of
        (Some err, rootRef') \<Rightarrow> (Some err, rootRef', size')
      | (None, rootRef') \<Rightarrow> applyChanges rest rootRef' (size' + GetSize change))"

text \<open>
  \<open>commitBlobber\<close> returns its error; the marker it built and the requests it sent are
  returned with it.
\<close>

definition commitBlobber ::
  "Env \<Rightarrow> CommitRequest \<Rightarrow> RefEntity \<Rightarrow> WriteMarker option \<Rightarrow> int64
     \<Rightarrow> error option \<times> WriteMarker \<times> request list" where
  "commitBlobber env req rootRef latestWM size' =
     (let timestamp = Now env;
          wm = \<lparr>AllocationRoot = encryption_Hash env (RefHash rootRef @ '':'' @ FormatInt timestamp),
                PreviousAllocationRoot =
                  (case latestWM of Some latest \<Rightarrow> AllocationRoot latest | None \<Rightarrow> ''''),
                AllocationID = allocationID req,
                WMSize = size',
                BlobberID = ID (blobber req),
                Timestamp = timestamp,
                ClientID = GetClientID env,
                Signature = ''''\<rparr>
      in (case Sign env wm of
            Inl err \<Rightarrow> (Some err, wm, [])
          | Inr signature \<Rightarrow>
              (let wm = wm\<lparr>Signature := signature\<rparr>
               in (case Marshal env wm of
                     Inl err \<Rightarrow> (Some err, wm, [])
                   | Inr wmData \<Rightarrow>
                       (let body = [(''connection_id'', connectionID req),
                                    (''write_marker'', wmData)]
                        in (case NewCommitRequest env (Baseurl (blobber req))
                                   (allocationID req) body of
                              Some err \<Rightarrow> (Some err, wm, [])
                            | None \<Rightarrow>
                                (let httpreq = CommitHTTPRequest (Baseurl (blobber req))
                                                 (allocationID req) body
                                 in ((case HttpDo env httpreq of
                                        TransportError err \<Rightarrow> Some err
                                      | Response StatusCode resp \<Rightarrow>
                                          (case resp of
                                             Inl err \<Rightarrow> Some err
                                           | Inr resp_body \<Rightarrow>
                                               (if StatusCode \<noteq> 200
                                                then Some (NewError env ''commit_error'' resp_body)
                                                else None))),
                                     wm, [httpreq]))))))))"

text \<open>
  The first loop of \<open>processCommit\<close>: \<open>path\<close> starts empty and each change
  overwrites it, so it ends as the affected path of the last change.
\<close>

definition affectedPath :: "AllocationChange list \<Rightarrow> string" where
  "affectedPath cs = foldl (\<lambda>path change. GetAffectedPath change) '''' cs"

text \<open>
  \<open>processCommit\<close>: the request after the call and the requests sent to the network,
  in order.
\<close>

definition processCommit ::
  "Env \<Rightarrow> CommitRequest \<Rightarrow> unit outcome \<times> CommitRequest \<times> request list" where
  "processCommit env commitreq =
     (let path = affectedPath (changes commitreq);
          err = NewReferencePathRequest env (Baseurl (blobber commitreq))
                  (allocationID commitreq) path
      in if err \<noteq> None \<or> length path = 0 then (Returned (), commitreq, [])
         else
           let req = ReferencePathRequest (Baseurl (blobber commitreq))
                       (allocationID commitreq) path
           in case fetchReferencePath env req of
                Inl err \<Rightarrow> finish (ErrorCommitResult err) commitreq [req]
              | Inr lR \<Rightarrow>
                  (case verifyLatestWM env commitreq lR of
                     Abort err \<Rightarrow> finish (ErrorCommitResult err) commitreq [req]
                   | NilDereference \<Rightarrow>
                       (Panicked ''nil pointer dereference'', commitreq, [req])
                   | Verified rootRef \<Rightarrow>
                       (case applyChanges (changes commitreq) rootRef 0 of
                          (Some err, _, _) \<Rightarrow> finish (ErrorCommitResult err) commitreq [req]
                        | (None, rootRef', size') \<Rightarrow>
                            (case commitBlobber env commitreq rootRef' (LatestWM lR) size' of
                               (Some err, _, net) \<Rightarrow>
                                 finish (ErrorCommitResult err) commitreq (req # net)
                             | (None, _, net) \<Rightarrow>
                                 finish SuccessCommitResult commitreq (req # net)))))"

section \<open>Listing from all blobbers\<close>

text \<open>
  The embedded struct \<open>Consensus\<close> (declared elsewhere in package \<open>sdk\<close>): the counter of
  agreeing responses and the two thresholds. \<open>ListResult\<close> and \<open>ListRequest\<close> embed
  it, here by record extension.
\<close>

record Consensus =
  consensus :: int
  consensusThresh :: real
  fullconsensus :: real

text \<open>
  \<open>Children\<close> is a slice of pointers to the records held in \<open>childResultMap\<close>, which
  go on changing after they are appended. A record is created once per key of that map
  and never replaced, so the pointer to a record is the key it is stored under.
\<close>

record ListResult = Consensus +
  Name :: string
  Path :: string
  Type :: string
  Size :: int64
  Hash :: string
  MimeType :: string
  NumBlocks :: int64
  Children :: "string list"

text \<open>
  The fields of \<open>ListRequest\<close> the code uses (\<open>listAllocationID\<close> is its field
  \<open>allocationID\<close>).
\<close>

record ListRequest = Consensus +
  listAllocationID :: string
  blobbers :: "StorageNode list"
  remotefilepath :: string

record listResponse =
  ref :: "RefEntity option"
  responseStr :: string
  blobberIdx :: nat
  err' :: "error option"

text \<open>
  (\<open>err'\<close> is the field \<open>err\<close> of \<open>listResponse\<close>.) \<open>&fileref.Ref{}\<close> is the
  zero value.
\<close>

definition emptyRef :: RefEntity where
  "emptyRef = RefEntity '''' '''' '''' '''' 0 [] None"

text \<open>
  \<open>getListInfoFromBlobber\<close>: the responses it sends on \<open>rspCh\<close> and the number of
  times it calls \<open>req.wg.Done()\<close>. Both happen in deferred calls, so on every return;
  the response carries \<open>ref\<close>, the response text and \<open>err\<close> as they are at the
  return. \<open>GetDirTree\<close> assigns \<open>ref\<close>, to nil when it fails.
\<close>

definition getListInfoFromBlobber ::
  "Env \<Rightarrow> ListRequest \<Rightarrow> StorageNode \<Rightarrow> nat \<Rightarrow> listResponse list \<times> nat" where
  "getListInfoFromBlobber env req blobber' idx =
     (let publish = (\<lambda>r s e. ([\<lparr>ref = r, responseStr = s, blobberIdx = idx, err' = e\<rparr>], 1))
      in case NewListRequest env (Baseurl blobber') (listAllocationID req) (remotefilepath req) of
           Some e \<Rightarrow> publish (Some emptyRef) '''' (Some e)
         | None \<Rightarrow>
             (case HttpDo env (ListHTTPRequest (Baseurl blobber') (listAllocationID req)
                                 (remotefilepath req)) of
                TransportError e \<Rightarrow> publish (Some emptyRef) '''' (Some e)
              | Response StatusCode resp \<Rightarrow>
                  (case resp of
                     Inl e \<Rightarrow> publish (Some emptyRef) '''' (Some (''Error: Resp : '' @ e))
                   | Inr resp_body \<Rightarrow>
                       (if StatusCode = 200 then
                          (case UnmarshalListResult env resp_body of
                             Inl e \<Rightarrow>
                               publish (Some emptyRef) resp_body
                                 (Some (''list entities response parse error: '' @ e))
                           | Inr listResult \<Rightarrow>
                               (case listResult (listAllocationID req) of
                                  Inl e \<Rightarrow>
                                    publish None resp_body
                                      (Some (''error getting the dir tree from list response: ''
                                             @ e))
                                | Inr tree \<Rightarrow> publish (Some tree) resp_body None))
                        else publish (Some emptyRef) resp_body
                               (Some (''error from server list response: '' @ resp_body))))))"

text \<open>
  \<open>getlistFromBlobbers\<close> starts one task per blobber and waits for all of them. The
  tasks share nothing but the wait group and the channel, whose buffer holds one response
  per task, so a run is given by the order in which the tasks send: \<open>schedule\<close>, the
  indices of the tasks in that order (a number that is no index of a task stands for no
  task). \<open>Wait\<close> returns when \<open>Done\<close> has been called once per task, and the loop
  then receives one response per blobber from the channel, in the order they were sent.
  \<open>None\<close> is the run that never returns: \<open>Wait\<close> or a receive blocks for ever.
\<close>

definition getlistFromBlobbers ::
  "Env \<Rightarrow> ListRequest \<Rightarrow> nat list \<Rightarrow> listResponse list option" where
  "getlistFromBlobbers env req schedule =
     (let numList = length (blobbers req);
          tasks = map (\<lambda>i. getListInfoFromBlobber env req (blobbers req ! i) i) [0..<numList];
          dones = sum_list (map snd tasks);
          rspCh = concat (map (\<lambda>i. fst (tasks ! i)) (filter (\<lambda>i. i < numList) schedule))
      in if dones \<noteq> numList then None
         else if length rspCh < numList then None
         else Some (take numList rspCh))"

text \<open>
  The state of the merge in \<open>GetListFromBlobbers\<close>: \<open>result\<close> (here \<open>merged\<close>),
  the maps \<open>selected\<close> and \<open>childResultMap\<close>, and \<open>req.consensus\<close>.
\<close>

record Merge =
  merged :: ListResult
  selected :: "string \<rightharpoonup> string"
  childResultMap :: "string \<rightharpoonup> ListResult"
  reqConsensus :: int

definition emptyListResult :: ListResult where
  "emptyListResult =
     \<lparr>consensus = 0, consensusThresh = 0, fullconsensus = 0,
      Name = '''', Path = '''', Type = '''', Size = 0, Hash = '''', MimeType = '''',
      NumBlocks = 0, Children = []\<rparr>"

definition initMerge :: "ListRequest \<Rightarrow> Merge" where
  "initMerge req =
     \<lparr>merged = emptyListResult, selected = Map.empty, childResultMap = Map.empty,
      reqConsensus = consensus req\<rparr>"

text \<open>
  The key of a child: the hash of its path, and for a file the hash of its path, \<open>:\<close>
  and its content hash. The type assertion \<open>child.(*fileref.FileRef)\<close> panics on a
  child of type \<open>FILE\<close> that is not a \<open>*fileref.FileRef\<close>.
\<close>

definition fileFields :: "Env \<Rightarrow> RefEntity \<Rightarrow> FileRefFields option outcome" where
  "fileFields env child =
     (if GetType child = FILE env
      then (case AsFileRef child of
              None \<Rightarrow> Panicked ''interface conversion''
            | Some f \<Rightarrow> Returned (Some f))
      else Returned None)"

definition actualHash :: "Env \<Rightarrow> RefEntity \<Rightarrow> FileRefFields option \<Rightarrow> string" where
  "actualHash env child file =
     (case file of
        None \<Rightarrow> encryption_Hash env (GetPath child)
      | Some f \<Rightarrow> encryption_Hash env (GetPath child @ '':'' @ ActualFileHash f))"

text \<open>The body of the loop over the children of one response.\<close>

definition mergeChild :: "Env \<Rightarrow> ListRequest \<Rightarrow> Merge \<Rightarrow> RefEntity \<Rightarrow> Merge outcome" where
  "mergeChild env req st child =
     (case fileFields env child of
        Panicked msg \<Rightarrow> Panicked msg
      | Returned file \<Rightarrow>
          (let key = actualHash env child file;
               childResult =
                 (case childResultMap st key of
                    None \<Rightarrow>
                      emptyListResult
                        \<lparr>Name := GetName child, Path := GetPath child, Type := GetType child,
                         consensus := 0, consensusThresh := consensusThresh req,
                         fullconsensus := fullconsensus req\<rparr>
                  | Some r \<Rightarrow> r);
               childResult = childResult\<lparr>consensus := consensus childResult + 1\<rparr>;
               childResult =
                 (case file of
                    Some f \<Rightarrow>
                      childResult\<lparr>Size := Size childResult + FileSize f,
                                  Hash := ActualFileHash f, MimeType := FileMimeType f\<rparr>
                  | None \<Rightarrow> childResult);
               childResult = childResult\<lparr>NumBlocks := NumBlocks childResult + GetNumBlocks child\<rparr>;
               st = st\<lparr>childResultMap := (childResultMap st)(key \<mapsto> childResult)\<rparr>
           in if isConsensusMin env (consensus childResult) (consensusThresh childResult)
                   (fullconsensus childResult)
                 \<and> selected st (GetPath child) = None
              then Returned
                     (st\<lparr>merged := (merged st)\<lparr>Children := Children (merged st) @ [key]\<rparr>,
                         selected := (selected st)(GetPath child \<mapsto> key)\<rparr>)
              else Returned st))"

fun mergeChildren :: "Env \<Rightarrow> ListRequest \<Rightarrow> Merge \<Rightarrow> RefEntity list \<Rightarrow> Merge outcome" where
  "mergeChildren env req st [] = Returned st"
| "mergeChildren env req st (child # rest) =
     (case mergeChild env req st child of
        Panicked msg \<Rightarrow> Panicked msg
      | Returned st' \<Rightarrow> mergeChildren env req st' rest)"

text \<open>
  The promoted children: the records the pointers in \<open>Children\<close> point to.
\<close>

definition promoted :: "Merge \<Rightarrow> ListResult list" where
  "promoted st = List.map_filter (childResultMap st) (Children (merged st))"

text \<open>
  The body of the loop over the responses, for the response \<open>ti\<close>. Its last loop adds
  the block counts of all the children promoted so far to \<open>result.NumBlocks\<close>.
\<close>

definition mergeResponse :: "Env \<Rightarrow> ListRequest \<Rightarrow> Merge \<Rightarrow> listResponse \<Rightarrow> Merge outcome" where
  "mergeResponse env req st ti =
     (let st = st\<lparr>reqConsensus := 0\<rparr>
      in case (err' ti, ref ti) of
           (None, Some tree) \<Rightarrow>
             (let result = (merged st)\<lparr>Name := GetName tree, Path := GetPath tree,
                                        Type := GetType tree\<rparr>;
                  result = (if Type result = DIRECTORY env then result\<lparr>Size := - 1\<rparr>
                            else result)
              in case mergeChildren env req (st\<lparr>merged := result\<rparr>) (RefChildren tree) of
                   Panicked msg \<Rightarrow> Panicked msg
                 | Returned st \<Rightarrow>
                     Returned
                       (st\<lparr>merged := (merged st)
                            \<lparr>NumBlocks := foldl (\<lambda>n child. n + NumBlocks child)
                                            (NumBlocks (merged st)) (promoted st)\<rparr>\<rparr>))
         | _ \<Rightarrow> Returned st)"

fun mergeResponses :: "Env \<Rightarrow> ListRequest \<Rightarrow> Merge \<Rightarrow> listResponse list \<Rightarrow> Merge outcome" where
  "mergeResponses env req st [] = Returned st"
| "mergeResponses env req st (ti # rest) =
     (case mergeResponse env req st ti of
        Panicked msg \<Rightarrow> Panicked msg
      | Returned st' \<Rightarrow> mergeResponses env req st' rest)"

text \<open>
  \<open>GetListFromBlobbers\<close>: the state of the merge at the return, which holds the result
  and the records its children point to; \<open>None\<close> when \<open>getlistFromBlobbers\<close> never
  returns.
\<close>

definition GetListFromBlobbers :: "Env \<Rightarrow> ListRequest \<Rightarrow> nat list \<Rightarrow> Merge outcome option" where
  "GetListFromBlobbers env req schedule =
     (case getlistFromBlobbers env req schedule of
        None \<Rightarrow> None
      | Some lR \<Rightarrow> Some (mergeResponses env req (initMerge req) lR))"

text \<open>
  The key \<open>mergeChild\<close> computes for a child, and the children that are merged: those
  of the responses that carry no error and a tree.
\<close>

definition childKey :: "Env \<Rightarrow> RefEntity \<Rightarrow> string" where
  "childKey env child =
     actualHash env child (if GetType child = FILE env then AsFileRef child else None)"

definition mergedChildren :: "listResponse list \<Rightarrow> RefEntity list" where
  "mergedChildren lR =
     concat (map (\<lambda>ti. case (err' ti, ref ti) of
                          (None, Some tree) \<Rightarrow> RefChildren tree
                        | _ \<Rightarrow> []) lR)"

text \<open>
  What the merge keeps true when children with the same key have the same path: no
  pointer is twice in \<open>Children\<close>, every pointer in \<open>Children\<close> points to a record
  that is the one selected for its path, and every record has the path of the children
  that were counted into it.
\<close>

definition merge_inv :: "Env \<Rightarrow> RefEntity set \<Rightarrow> Merge \<Rightarrow> bool" where
  "merge_inv env cs st \<longleftrightarrow>
     distinct (Children (merged st))
     \<and> (\<forall>k \<in> set (Children (merged st)).
           \<exists>r. childResultMap st k = Some r \<and> selected st (Path r) = Some k)
     \<and> (\<forall>k r. childResultMap st k = Some r \<longrightarrow>
           (\<exists>c \<in> cs. childKey env c = k \<and> GetPath c = Path r))"

section \<open>Example collaborators\<close>

text \<open>
  Concrete collaborators for the example runs: a node that answers every request with
  status 200 and reports the reference path result \<open>lR\<close>, a clock that reads \<open>t\<close>,
  a signature that is valid when it is the text \<open>signed:\<close> followed by the public key,
  a tree hash that is already up to date, and a hash that marks its input. A list
  response decodes to a tree named by its body, and a record has consensus when its
  counter has reached the threshold.
\<close>

definition exampleRoot :: "string \<Rightarrow> RefEntity" where
  "exampleRoot h = RefEntity ''d'' ''/'' ''/'' h 0 [] None"

definition exampleEnv :: "ReferencePathResult \<Rightarrow> int64 \<Rightarrow> Env" where
  "exampleEnv lR t =
     \<lparr>NewReferencePathRequest = (\<lambda>baseurl allocation path. None),
      HttpDo = (\<lambda>httpreq. Response 200 (Inr ''body'')),
      Unmarshal = (\<lambda>body. Inr lR),
      GetClientPublicKey = ''key'',
      VerifySignature = (\<lambda>wm key. if Signature wm = ''signed:'' @ key then None
                                   else Some ''signature_mismatch''),
      CalculateHash = (\<lambda>rootRef. rootRef),
      encryption_Hash = (\<lambda>s. ''#'' @ s),
      Now = t,
      GetClientID = ''client'',
      Sign = (\<lambda>wm. Inr ''signed:key''),
      Marshal = (\<lambda>wm. Inr (AllocationRoot wm @ ''|'' @ PreviousAllocationRoot wm)),
      NewCommitRequest = (\<lambda>baseurl allocation body. None),
      NewError = (\<lambda>code msg. code @ '': '' @ msg),
      NewListRequest = (\<lambda>baseurl allocation path. None),
      UnmarshalListResult = (\<lambda>body. Inr (\<lambda>allocation. Inr (exampleRoot body))),
      DIRECTORY = ''d'',
      FILE = ''f'',
      isConsensusMin = (\<lambda>c thresh full. thresh \<le> real_of_int c)\<rparr>"

text \<open>A change that succeeds and marks the root hash, and a change that fails.\<close>

definition exampleChange :: "string \<Rightarrow> int64 \<Rightarrow> AllocationChange" where
  "exampleChange p s =
     \<lparr>ProcessChange = (\<lambda>rootRef. (None, exampleRoot (RefHash rootRef @ ''+'' @ p))),
      GetAffectedPath = p,
      GetSize = s\<rparr>"

definition failingChange :: "string \<Rightarrow> int64 \<Rightarrow> AllocationChange" where
  "failingChange p s =
     \<lparr>ProcessChange = (\<lambda>rootRef. (Some ''invalid_change'', rootRef)),
      GetAffectedPath = p,
      GetSize = s\<rparr>"

definition exampleRequest :: "AllocationChange list \<Rightarrow> CommitRequest" where
  "exampleRequest cs =
     \<lparr>changes = cs, blobber = \<lparr>ID = ''b1'', Baseurl = ''http://b1''\<rparr>,
      allocationID = ''alloc'', connectionID = ''conn'', wg = 1, result = None\<rparr>"

text \<open>What the node reports: a tree with root hash \<open>h\<close> and its latest marker.\<close>

definition exampleReport :: "string \<Rightarrow> WriteMarker option \<Rightarrow> ReferencePathResult" where
  "exampleReport h latest = \<lparr>GetDirTree = (\<lambda>allocation. Inr (exampleRoot h)), LatestWM = latest\<rparr>"

definition exampleMarker :: "string \<Rightarrow> int64 \<Rightarrow> string \<Rightarrow> WriteMarker" where
  "exampleMarker allocationRoot t signature =
     \<lparr>AllocationRoot = allocationRoot, PreviousAllocationRoot = '''', AllocationID = ''alloc'',
      WMSize = 0, BlobberID = ''b1'', Timestamp = t, ClientID = ''client'',
      Signature = signature\<rparr>"

text \<open>
  For the listing: a file below the root with its content hash and five blocks, the
  response of blobber \<open>idx\<close> reporting the given children, and a request whose records
  need the agreement of two of \<open>n\<close> blobbers.
\<close>

definition exampleFile :: "string \<Rightarrow> string \<Rightarrow> RefEntity" where
  "exampleFile p h =
     RefEntity ''f'' p p h 5 []
       (Some \<lparr>ActualFileHash = h, FileSize = 100, FileMimeType = ''text/plain''\<rparr>)"

definition exampleResponse :: "nat \<Rightarrow> RefEntity list \<Rightarrow> listResponse" where
  "exampleResponse idx children =
     \<lparr>ref = Some (RefEntity ''d'' ''/'' ''/'' ''r0'' 0 children None),
      responseStr = ''body'', blobberIdx = idx, err' = None\<rparr>"

definition exampleListRequest :: "nat \<Rightarrow> ListRequest" where
  "exampleListRequest n =
     \<lparr>consensus = 0, consensusThresh = 2, fullconsensus = real n,
      listAllocationID = ''alloc'',
      blobbers = map (\<lambda>i. \<lparr>ID = ''b'', Baseurl = ''http://b''\<rparr>) [0..<n],
      remotefilepath = ''/''\<rparr>"

section \<open>Commit worker pool: proofs\<close>

lemma registry_nonnil [simp]:
  "registry (if commitChan st = None then st\<lparr>commitChan := Some Map.empty\<rparr> else st) = registry st"
  by (auto simp: registry_def split: option.splits)

lemma workers_nonnil [simp]:
  "workers (if commitChan st = None then st\<lparr>commitChan := Some Map.empty\<rparr> else st) = workers st"
  by simp

lemma pool_ok_nonnil:
  "pool_ok st \<Longrightarrow> pool_ok (if commitChan st = None then st\<lparr>commitChan := Some Map.empty\<rparr> else st)"
  by (auto simp: pool_ok_def registry_def split: option.splits)

lemma pool_ok_register: "pool_ok st \<Longrightarrow> pool_ok (registerBlobber st b)"
  unfolding pool_ok_def registerBlobber_def
  by (cases "registry st (ID b)") (auto simp: registry_def domIff split: option.splits)

lemma dom_register:
  "dom (registry (registerBlobber st b)) = insert (ID b) (dom (registry st))"
  unfolding registerBlobber_def
  by (cases "registry st (ID b)") (auto simp: registry_def)

lemma known_register:
  "registry st (ID b) \<noteq> None \<Longrightarrow> registerBlobber st b = st"
  unfolding registerBlobber_def by (auto split: option.splits)

lemma pool_ok_foldl: "pool_ok st \<Longrightarrow> pool_ok (foldl registerBlobber st bs)"
  by (induction bs arbitrary: st) (auto simp: pool_ok_register)

lemma dom_foldl:
  "dom (registry (foldl registerBlobber st bs)) = dom (registry st) \<union> ID ` set bs"
  by (induction bs arbitrary: st) (auto simp: dom_register)

lemma known_foldl:
  "ID ` set bs \<subseteq> dom (registry st) \<Longrightarrow> foldl registerBlobber st bs = st"
  by (induction bs arbitrary: st) (auto simp: known_register domIff)

lemma pool_ok_Init: "pool_ok st \<Longrightarrow> pool_ok (InitCommitWorker bs st)"
  unfolding InitCommitWorker_def by (intro pool_ok_foldl pool_ok_nonnil)

lemma dom_Init: "dom (registry (InitCommitWorker bs st)) = dom (registry st) \<union> ID ` set bs"
  unfolding InitCommitWorker_def by (simp add: dom_foldl)

lemma known_Init:
  assumes "ID ` set bs \<subseteq> dom (registry st)"
  shows "registry (InitCommitWorker bs st) = registry st"
    and "workers (InitCommitWorker bs st) = workers st"
  using assms unfolding InitCommitWorker_def by (simp_all add: known_foldl)

lemma pool_ok_foldl_Init:
  "pool_ok st \<Longrightarrow> pool_ok (foldl (\<lambda>st blobbers. InitCommitWorker blobbers st) st calls)"
  by (induction calls arbitrary: st) (auto simp: pool_ok_Init)

lemma dom_foldl_Init:
  "dom (registry (foldl (\<lambda>st blobbers. InitCommitWorker blobbers st) st calls))
     = dom (registry st) \<union> suppliedIDs calls"
  by (induction calls arbitrary: st) (auto simp: dom_Init suppliedIDs_def)

lemma pool_ok_runInits: "pool_ok (runInits calls)"
  unfolding runInits_def
  by (rule pool_ok_foldl_Init) (simp add: pool_ok_def initPool_def registry_def)

lemma dom_runInits: "dom (registry (runInits calls)) = suppliedIDs calls"
proof -
  have "dom (registry initPool) = {}" by (simp add: initPool_def registry_def)
  then show ?thesis unfolding runInits_def by (simp add: dom_foldl_Init)
qed

text \<open>
  C3. After any number of calls of \<open>InitCommitWorker\<close>, with node sets that may
  overlap, the registry holds a queue for exactly the node ids supplied, there is exactly
  one worker per such id, started on the queue registered for it, no two workers share a
  queue, and a further call whose node ids are all known changes neither the registry nor
  the workers.
\<close>

theorem InitCommitWorker_one_worker_per_id:
  "dom (registry (runInits calls)) = suppliedIDs calls
   \<and> distinct (map snd (workers (runInits calls)))
   \<and> set (map snd (workers (runInits calls))) = suppliedIDs calls
   \<and> length (workers (runInits calls)) = card (suppliedIDs calls)
   \<and> distinct (map fst (workers (runInits calls)))
   \<and> (\<forall>(ch, k) \<in> set (workers (runInits calls)). registry (runInits calls) k = Some ch)
   \<and> (\<forall>blobbers. ID ` set blobbers \<subseteq> suppliedIDs calls \<longrightarrow>
         registry (InitCommitWorker blobbers (runInits calls)) = registry (runInits calls)
       \<and> workers (InitCommitWorker blobbers (runInits calls)) = workers (runInits calls))"
proof -
  let ?st = "runInits calls"
  have ok: "pool_ok ?st" by (rule pool_ok_runInits)
  have d: "dom (registry ?st) = suppliedIDs calls" by (rule dom_runInits)
  have dist: "distinct (map snd (workers ?st))" using ok by (simp add: pool_ok_def)
  have ids: "set (map snd (workers ?st)) = suppliedIDs calls"
    using ok d by (simp add: pool_ok_def)
  have "length (workers ?st) = length (map snd (workers ?st))" by simp
  also have "\<dots> = card (set (map snd (workers ?st)))"
    using dist by (rule distinct_card [symmetric])
  finally have len: "length (workers ?st) = card (suppliedIDs calls)"
    using ids by simp
  have chans: "distinct (map fst (workers ?st))" using ok by (simp add: pool_ok_def)
  have reg: "\<forall>(ch, k) \<in> set (workers ?st). registry ?st k = Some ch"
    using ok by (auto simp: pool_ok_def)
  have noop: "\<forall>blobbers. ID ` set blobbers \<subseteq> suppliedIDs calls \<longrightarrow>
         registry (InitCommitWorker blobbers ?st) = registry ?st
       \<and> workers (InitCommitWorker blobbers ?st) = workers ?st"
    using known_Init [of _ ?st] d by simp
  show ?thesis using d dist ids len chans reg noop by blast
qed

theorem InitCommitWorker_one_worker_per_id_witness:
  "ID ` set [\<lparr>ID = ''b'', Baseurl = ''v''\<rparr>]
     \<subseteq> suppliedIDs [[\<lparr>ID = ''a'', Baseurl = ''u''\<rparr>, \<lparr>ID = ''b'', Baseurl = ''v''\<rparr>],
                     [\<lparr>ID = ''b'', Baseurl = ''v''\<rparr>, \<lparr>ID = ''a'', Baseurl = ''u''\<rparr>]]
   \<and> workers (InitCommitWorker [\<lparr>ID = ''b'', Baseurl = ''v''\<rparr>]
        (runInits [[\<lparr>ID = ''a'', Baseurl = ''u''\<rparr>, \<lparr>ID = ''b'', Baseurl = ''v''\<rparr>],
                   [\<lparr>ID = ''b'', Baseurl = ''v''\<rparr>, \<lparr>ID = ''a'', Baseurl = ''u''\<rparr>]]))
     = [(0, ''a''), (1, ''b'')]
   \<and> length (workers (runInits [[\<lparr>ID = ''a'', Baseurl = ''u''\<rparr>, \<lparr>ID = ''b'', Baseurl = ''v''\<rparr>],
                   [\<lparr>ID = ''b'', Baseurl = ''v''\<rparr>, \<lparr>ID = ''a'', Baseurl = ''u''\<rparr>]]))
     = card {''a'', ''b''}"
proof -
  let ?calls = "[[\<lparr>ID = ''a'', Baseurl = ''u''\<rparr>, \<lparr>ID = ''b'', Baseurl = ''v''\<rparr>],
                 [\<lparr>ID = ''b'', Baseurl = ''v''\<rparr>, \<lparr>ID = ''a'', Baseurl = ''u''\<rparr>]]"
  have ids: "suppliedIDs ?calls = {''a'', ''b''}"
    by (auto simp: suppliedIDs_def)
  have ws: "workers (runInits ?calls) = [(0, ''a''), (1, ''b'')]"
    by (simp add: runInits_def InitCommitWorker_def registerBlobber_def registry_def initPool_def)
  have sub: "ID ` set [\<lparr>ID = ''b'', Baseurl = ''v''\<rparr>] \<subseteq> suppliedIDs ?calls"
    by (simp add: ids)
  from InitCommitWorker_one_worker_per_id [of ?calls] sub ws ids
  show ?thesis by (simp del: set_simps)
qed

section \<open>Thumbnail shard dispatch: proofs\<close>

lemma filter_find:
  "find P xs = Some x \<Longrightarrow> distinct xs \<Longrightarrow> filter P xs = x # filter (\<lambda>y. P y \<and> y \<noteq> x) xs"
proof (induction xs)
  case Nil
  then show ?case by simp
next
  case (Cons a xs)
  show ?case
  proof (cases "P a")
    case True
    with Cons.prems have ax: "a = x" by simp
    have "filter P xs = filter (\<lambda>y. P y \<and> y \<noteq> x) xs"
      using Cons.prems(2) ax by (intro filter_cong) auto
    with True ax show ?thesis by simp
  next
    case False
    with Cons show ?thesis by simp
  qed
qed

lemma setBits_0 [simp]: "setBits 0 = []"
  by (simp add: setBits_def)

lemma setBits_step:
  assumes "i \<noteq> 0"
  shows "setBits i = TrailingZeros32 i # setBits (i AND NOT (push_bit (TrailingZeros32 i) 1))"
proof -
  let ?p = "TrailingZeros32 i"
  have "filter (bit i) [0..<32] = ?p # filter (\<lambda>y. bit i y \<and> y \<noteq> ?p) [0..<32]"
    by (rule filter_find [OF TrailingZeros32_find [OF assms]]) simp
  moreover have "filter (\<lambda>y. bit i y \<and> y \<noteq> ?p) [0..<32]
      = filter (bit (i AND NOT (push_bit ?p 1))) [0..<32]"
    by (intro filter_cong) (auto simp: bit_simps simp del: upt_rec_numeral)
  ultimately show ?thesis by (simp add: setBits_def del: upt_rec_numeral)
qed

lemma sendShards_spec:
  "\<forall>n \<in> set (setBits i). n < length shards \<Longrightarrow> c + length (setBits i) \<le> length chans \<Longrightarrow>
   sendShards chans shards i c sends
     = (Returned (), sends @ map (\<lambda>(k, n). (chans ! k, shards ! n)) (enumerate c (setBits i)))"
proof (induction chans shards i c sends rule: sendShards.induct)
  case (1 chans shards i c sends)
  show ?case
  proof (cases "i = 0")
    case True
    then show ?thesis by (simp add: sendShards.simps)
  next
    case False
    let ?p = "TrailingZeros32 i"
    let ?j = "i AND NOT (push_bit ?p 1)"
    have st: "setBits i = ?p # setBits ?j" by (rule setBits_step [OF False])
    have p: "?p < length shards" using "1.prems"(1) st by simp
    have c: "c < length chans" using "1.prems"(2) st by simp
    have "sendShards chans shards ?j (c + 1) (sends @ [(chans ! c, shards ! ?p)])
        = (Returned (), (sends @ [(chans ! c, shards ! ?p)])
             @ map (\<lambda>(k, n). (chans ! k, shards ! n)) (enumerate (c + 1) (setBits ?j)))"
      using "1.prems" st False c p by (intro "1.IH") (auto simp del: push_bit_of_1)
    then show ?thesis
      using False c p by (subst sendShards.simps) (simp add: st Let_def del: push_bit_of_1)
  qed
qed

lemma upt_add_Suc: "[c ..< c + Suc k] = c # [c + 1 ..< c + 1 + k]"
proof -
  have "c < c + Suc k" by simp
  then have "[c ..< c + Suc k] = c # [Suc c ..< c + Suc k]" by (rule upt_conv_Cons)
  moreover have "c + 1 + k = c + Suc k" and "c + 1 = Suc c" by simp_all
  ultimately show ?thesis by (simp only:)
qed

lemma sendDone_spec:
  "c + length (setBits i) \<le> length chans \<Longrightarrow>
   sendDone chans i c sends
     = (Returned (), sends @ map (\<lambda>k. (chans ! k, done_bytes)) [c ..< c + length (setBits i)])"
proof (induction chans i c sends rule: sendDone.induct)
  case (1 chans i c sends)
  show ?case
  proof (cases "i = 0")
    case True
    then show ?thesis by (simp add: sendDone.simps)
  next
    case False
    let ?p = "TrailingZeros32 i"
    let ?j = "i AND NOT (push_bit ?p 1)"
    have st: "setBits i = ?p # setBits ?j" by (rule setBits_step [OF False])
    have c: "c < length chans" using "1.prems" st by simp
    have "sendDone chans ?j (c + 1) (sends @ [(chans ! c, done_bytes)])
        = (Returned (), (sends @ [(chans ! c, done_bytes)])
             @ map (\<lambda>k. (chans ! k, done_bytes)) [c + 1 ..< c + 1 + length (setBits ?j)])"
      using "1.prems" st False c by (intro "1.IH") (auto simp del: push_bit_of_1)
    moreover have "[c ..< c + length (setBits i)] = c # [c + 1 ..< c + 1 + length (setBits ?j)]"
    proof -
      have "length (setBits i) = Suc (length (setBits ?j))" by (subst st) simp
      then show ?thesis by (simp only: upt_add_Suc)
    qed
    ultimately show ?thesis
      using False c by (subst sendDone.simps) (simp add: Let_def del: push_bit_of_1 upt_Suc)
  qed
qed

lemma float64_small: "\<bar>x\<bar> \<le> 2 ^ 53 \<Longrightarrow> float64 x = x"
proof -
  assume "\<bar>x\<bar> \<le> 2 ^ 53"
  then have "nat \<bar>x\<bar> \<le> nat (2 ^ 53)" by (rule nat_mono)
  then have "nat \<bar>x\<bar> \<le> 2 ^ 53" by (simp only: nat_power_eq nat_numeral zero_le_numeral)
  then show ?thesis unfolding float64_def Let_def by (simp only: if_True)
qed

lemma float64_nonneg:
  assumes "0 \<le> x"
  shows "0 \<le> float64 x"
proof (cases "nat \<bar>x\<bar> \<le> 2 ^ 53")
  case True
  then have "float64 x = x" unfolding float64_def Let_def by (simp only: if_True)
  with assms show ?thesis by simp
next
  case False
  have "0 \<le> sgn x * int k" for k
    using assms by (intro mult_nonneg_nonneg) (simp_all add: sgn_if)
  with False show ?thesis unfolding float64_def Let_def by (simp only: if_False)
qed

lemma clamp_in_range:
  assumes "0 \<le> sint r" and "length data \<le> 2 ^ 53"
  defines "n \<equiv> (word_of_int (min (float64 (sint r)) (float64 (int (length data)))) :: int64)"
  shows "0 \<le> sint n \<and> sint n \<le> int (length data)"
proof -
  let ?m = "min (float64 (sint r)) (float64 (int (length data)))"
  have "int (length data) \<le> int (2 ^ 53)" using assms(2) by (simp only: of_nat_le_iff)
  then have b: "int (length data) \<le> 2 ^ 53" by (simp only: of_nat_power of_nat_numeral)
  then have l: "float64 (int (length data)) = int (length data)"
    by (intro float64_small) simp
  have m0: "0 \<le> ?m" using float64_nonneg [OF assms(1)] l by simp
  have m1: "?m \<le> int (length data)" using l by simp
  have "(2::int) ^ 53 < 2 ^ 63" by simp
  with m1 b have m2: "?m < 2 ^ 63" by linarith
  have "- (2 ^ 63) \<le> ?m" using m0 by (rule order_trans [rotated]) simp
  then have "sint (word_of_int ?m :: int64) = ?m"
    using m2 by (simp add: signed_of_int signed_take_bit_int_eq_self)
  with m0 m1 show ?thesis by (simp only: n_def)
qed

text \<open>
  C5. A push whose chunk is encoded (and whose mask selects only shards and channels that
  exist) sends one shard per set bit of \<open>uploadMask\<close> and nothing else: the set bits
  are visited in ascending order of bit index, the shard sent for bit index \<open>i\<close> is
  \<open>shards[i]\<close>, on the next channel of \<open>uploadThumbCh\<close>, and no shard is sent for
  a cleared bit.
\<close>

theorem pushThumbnailData_sends:
  assumes enc: "NewEncoder (datashards req) (parityshards req) = Inr Encode"
    and shards: "Encode data = Inr shards"
    and slice: "isRepair req \<or> (0 \<le> sint (thumbRemaining req) \<and> length data \<le> 2 ^ 53)"
    and inrange: "\<forall>n \<in> set (setBits (uploadMask req)). n < length shards"
    and chans: "length (setBits (uploadMask req)) \<le> length (uploadThumbCh req)"
  shows "\<exists>req'. pushThumbnailData NewEncoder req data = (Returned None, req')
           \<and> sent req' = sent req @ map (\<lambda>(c, i). (uploadThumbCh req ! c, shards ! i))
                                        (enumerate 0 (setBits (uploadMask req)))"
proof -
  let ?n = "(word_of_int (min (float64 (sint (thumbRemaining req)))
                                (float64 (int (length data)))) :: int64)"
  have nopanic: "\<not> (\<not> isRepair req \<and> (sint ?n < 0 \<or> int (length data) < sint ?n))"
    using slice clamp_in_range [of "thumbRemaining req" data] by auto
  have loop: "sendShards (uploadThumbCh req) shards (uploadMask req) 0 sends
     = (Returned (), sends @ map (\<lambda>(c, i). (uploadThumbCh req ! c, shards ! i))
                                        (enumerate 0 (setBits (uploadMask req))))" for sends
    using inrange chans by (intro sendShards_spec) auto
  show ?thesis
    unfolding pushThumbnailData_def Let_def
    using nopanic enc shards by (simp add: loop)
qed

lemma setBits_37: "setBits 37 = [0, 2, 5]"
  by code_simp

text \<open>The mask selecting the indices 0, 2 and 5 of 8 shards.\<close>

theorem pushThumbnailData_sends_witness:
  "\<exists>req'. pushThumbnailData (\<lambda>d p. Inr (\<lambda>data. Inr [[0], [1], [2], [3], [4], [5], [6], [7]]))
      \<lparr>thumbRemaining = 100, isRepair = False, thumbnailHash = [], datashards = 6,
       parityshards = 2, uploadMask = 37, uploadThumbCh = [10, 11, 12], sent = [],
       ThumbnailHash = []\<rparr> [1, 2, 3] = (Returned None, req')
     \<and> sent req' = [(10, [0]), (11, [2]), (12, [5])]"
proof -
  let ?E = "\<lambda>data :: byte list. Inr [[0], [1], [2], [3], [4], [5], [6], [7]] :: error + byte list list"
  let ?NE = "\<lambda>(d :: int) (p :: int). Inr ?E :: error + (byte list \<Rightarrow> error + byte list list)"
  let ?req = "\<lparr>thumbRemaining = 100, isRepair = False, thumbnailHash = [], datashards = 6,
       parityshards = 2, uploadMask = 37, uploadThumbCh = [10, 11, 12], sent = [],
       ThumbnailHash = []\<rparr>"
  have h1: "?NE (datashards ?req) (parityshards ?req) = Inr ?E" by simp
  have h2: "?E [1, 2, 3] = Inr [[0], [1], [2], [3], [4], [5], [6], [7]]" by simp
  have h3: "isRepair ?req \<or> (0 \<le> sint (thumbRemaining ?req) \<and> length [1, 2, 3 :: byte] \<le> 2 ^ 53)"
    by simp
  have h4: "\<forall>n \<in> set (setBits (uploadMask ?req)). n < length [[0], [1], [2], [3], [4], [5], [6], [7 :: byte]]"
    by (simp add: setBits_37)
  have h5: "length (setBits (uploadMask ?req)) \<le> length (uploadThumbCh ?req)"
    by (simp add: setBits_37)
  from pushThumbnailData_sends [of ?NE ?req ?E "[1, 2, 3]", OF h1 h2 h3 h4 h5]
  show ?thesis by (simp add: setBits_37 enumerate_eq_zip)
qed

lemma pushThumbnailData_repair_hash:
  "isRepair req \<Longrightarrow> thumbnailHash (snd (pushThumbnailData NewEncoder req data)) = thumbnailHash req"
  unfolding pushThumbnailData_def Let_def
  by (simp split: sum.splits prod.splits outcome.splits)

lemma completeThumbnailPush_repair:
  "isRepair req \<Longrightarrow> completeThumbnailPush hashSum req = (Returned None, req)"
  by (simp add: completeThumbnailPush_def)

lemma completeThumbnailPush_fresh:
  assumes "\<not> isRepair req" and "length (setBits (uploadMask req)) \<le> length (uploadThumbCh req)"
  shows "completeThumbnailPush hashSum req =
    (Returned None,
     req\<lparr>ThumbnailHash := EncodeToString (hashSum (thumbnailHash req)),
         sent := sent req @ map (\<lambda>c. (uploadThumbCh req ! c, done_bytes))
                              [0 ..< length (setBits (uploadMask req))]\<rparr>)"
proof -
  have "sendDone (uploadThumbCh req) (uploadMask req) 0 sends
      = (Returned (), sends @ map (\<lambda>c. (uploadThumbCh req ! c, done_bytes))
                              [0 ..< 0 + length (setBits (uploadMask req))])" for sends
    using assms(2) by (intro sendDone_spec) simp
  with assms(1) show ?thesis by (simp add: completeThumbnailPush_def Let_def)
qed

text \<open>
  C6. In repair mode a push leaves the running hash as it was, and completion changes
  nothing: the thumbnail hash of the file meta keeps its value and nothing is sent. Not
  in repair mode, completion stores the hex encoding of the digest in the thumbnail hash
  and sends one \<open>done\<close> on each channel in use, one per set bit of the mask.
\<close>

theorem repair_mode_frame:
  "(isRepair req \<longrightarrow>
      thumbnailHash (snd (pushThumbnailData NewEncoder req data)) = thumbnailHash req
    \<and> completeThumbnailPush hashSum req = (Returned None, req))
   \<and> (\<not> isRepair req \<and> length (setBits (uploadMask req)) \<le> length (uploadThumbCh req) \<longrightarrow>
      completeThumbnailPush hashSum req =
        (Returned None,
         req\<lparr>ThumbnailHash := EncodeToString (hashSum (thumbnailHash req)),
             sent := sent req @ map (\<lambda>c. (uploadThumbCh req ! c, done_bytes))
                                  [0 ..< length (setBits (uploadMask req))]\<rparr>))"
  using pushThumbnailData_repair_hash completeThumbnailPush_repair completeThumbnailPush_fresh
  by blast

theorem repair_mode_frame_witness:
  "thumbnailHash (snd (pushThumbnailData (\<lambda>d p. Inr (\<lambda>data. Inr [[0], [1], [2], [3], [4], [5], [6], [7]]))
      \<lparr>thumbRemaining = 100, isRepair = True, thumbnailHash = [0xAB, 1], datashards = 6,
       parityshards = 2, uploadMask = 37, uploadThumbCh = [10, 11, 12], sent = [],
       ThumbnailHash = ''ab01''\<rparr> [1, 2, 3])) = [0xAB, 1]
   \<and> completeThumbnailPush (\<lambda>bs. bs)
      \<lparr>thumbRemaining = 100, isRepair = True, thumbnailHash = [0xAB, 1], datashards = 6,
       parityshards = 2, uploadMask = 37, uploadThumbCh = [10, 11, 12], sent = [],
       ThumbnailHash = ''ab01''\<rparr>
     = (Returned None,
      \<lparr>thumbRemaining = 100, isRepair = True, thumbnailHash = [0xAB, 1], datashards = 6,
       parityshards = 2, uploadMask = 37, uploadThumbCh = [10, 11, 12], sent = [],
       ThumbnailHash = ''ab01''\<rparr>)
   \<and> completeThumbnailPush (\<lambda>bs. bs)
      \<lparr>thumbRemaining = 0, isRepair = False, thumbnailHash = [0xAB, 1], datashards = 6,
       parityshards = 2, uploadMask = 37, uploadThumbCh = [10, 11, 12], sent = [],
       ThumbnailHash = []\<rparr>
     = (Returned None,
      \<lparr>thumbRemaining = 0, isRepair = False, thumbnailHash = [0xAB, 1], datashards = 6,
       parityshards = 2, uploadMask = 37, uploadThumbCh = [10, 11, 12],
       sent = [(10, done_bytes), (11, done_bytes), (12, done_bytes)],
       ThumbnailHash = ''ab01''\<rparr>)"
proof -
  let ?NE = "\<lambda>(d :: int) (p :: int). Inr (\<lambda>data :: byte list. Inr [[0], [1], [2], [3], [4], [5], [6], [7]] :: error + byte list list)
                :: error + (byte list \<Rightarrow> error + byte list list)"
  let ?r = "\<lparr>thumbRemaining = 100, isRepair = True, thumbnailHash = [0xAB, 1], datashards = 6,
       parityshards = 2, uploadMask = 37, uploadThumbCh = [10, 11, 12], sent = [],
       ThumbnailHash = ''ab01''\<rparr>"
  let ?f = "\<lparr>thumbRemaining = 0, isRepair = False, thumbnailHash = [0xAB, 1], datashards = 6,
       parityshards = 2, uploadMask = 37, uploadThumbCh = [10, 11, 12], sent = [],
       ThumbnailHash = []\<rparr>"
  have bits: "setBits 37 = [0, 2, 5]" by code_simp
  have r: "isRepair ?r" by simp
  have f: "\<not> isRepair ?f \<and> length (setBits (uploadMask ?f)) \<le> length (uploadThumbCh ?f)"
    by (simp add: bits)
  have hex: "EncodeToString [0xAB, 1] = ''ab01''" by (simp add: EncodeToString_def)
  from repair_mode_frame [of ?r ?NE "[1, 2, 3]" "\<lambda>bs. bs"] r
       repair_mode_frame [of ?f ?NE "[1, 2, 3]" "\<lambda>bs. bs"] f
  show ?thesis by (simp add: bits hex)
qed

section \<open>Commit of one request: proofs\<close>

lemma affectedPath_last:
  "affectedPath cs = (if cs = [] then '''' else GetAffectedPath (last cs))"
proof -
  have "foldl (\<lambda>path change. GetAffectedPath change) p cs
          = (if cs = [] then p else GetAffectedPath (last cs))" for p
    by (induction cs arbitrary: p) auto
  then show ?thesis by (simp add: affectedPath_def)
qed

lemma applyChanges_ok:
  "applyChanges cs rootRef s = (None, rootRef', s') \<Longrightarrow>
     rootRef' = foldl (\<lambda>r change. snd (ProcessChange change r)) rootRef cs
     \<and> s' = s + sum_list (map GetSize cs)
     \<and> (\<forall>k < length cs. fst (ProcessChange (cs ! k)
            (foldl (\<lambda>r change. snd (ProcessChange change r)) rootRef (take k cs))) = None)"
proof (induction cs arbitrary: rootRef s)
  case Nil
  then show ?case by simp
next
  case (Cons c cs)
  obtain e r where pc: "ProcessChange c rootRef = (e, r)" by (cases "ProcessChange c rootRef")
  with Cons.prems have e: "e = None" and rest: "applyChanges cs r (s + GetSize c) = (None, rootRef', s')"
    by (auto split: option.splits)
  from Cons.IH [OF rest] pc e show ?case
    by (auto simp: add.assoc nth_Cons split: nat.splits)
qed

lemma applyChanges_fail:
  "applyChanges pre rootRef s = (None, rootRef1, s1) \<Longrightarrow>
   ProcessChange change rootRef1 = (Some err, rootRef2) \<Longrightarrow>
   applyChanges (pre @ change # post) rootRef s = (Some err, rootRef2, s1)"
proof (induction pre arbitrary: rootRef s)
  case Nil
  then show ?case by simp
next
  case (Cons c cs)
  obtain e r where pc: "ProcessChange c rootRef = (e, r)" by (cases "ProcessChange c rootRef")
  with Cons.prems(1) have e: "e = None" and rest: "applyChanges cs r (s + GetSize c) = (None, rootRef1, s1)"
    by (auto split: option.splits)
  from Cons.IH [OF rest Cons.prems(2)] pc e show ?case by simp
qed

lemma finish_fields:
  "result (fst (snd (finish res req net))) = Some res"
  "wg (fst (snd (finish res req net))) = wg req - 1"
  "snd (snd (finish res req net)) = net"
  "0 < wg req \<Longrightarrow> fst (finish res req net) = Returned ()"
  "changes (fst (snd (finish res req net))) = changes req"
  by (simp_all add: finish_def Let_def)

lemma finish_Returned:
  "finish res req net = (Returned (), req', net') \<Longrightarrow>
     req' = req\<lparr>result := Some res, wg := wg req - 1\<rparr> \<and> net' = net"
  by (auto simp: finish_def Let_def split: if_splits)

lemma commitBlobber_marker:
  "commitBlobber env req rootRef latestWM sz = (err, wm, net) \<Longrightarrow>
     AllocationRoot wm = encryption_Hash env (RefHash rootRef @ '':'' @ FormatInt (Timestamp wm))
     \<and> Timestamp wm = Now env
     \<and> PreviousAllocationRoot wm =
          (case latestWM of None \<Rightarrow> '''' | Some latest \<Rightarrow> AllocationRoot latest)
     \<and> WMSize wm = sz
     \<and> AllocationID wm = allocationID req
     \<and> BlobberID wm = ID (blobber req)
     \<and> ClientID wm = GetClientID env"
  unfolding commitBlobber_def Let_def
  by (auto split: sum.splits option.splits http_reply.splits if_splits)

lemma commitBlobber_sent:
  "commitBlobber env req rootRef latestWM sz = (None, wm, net) \<Longrightarrow>
     \<exists>wmData. Marshal env wm = Inr wmData
       \<and> net = [CommitHTTPRequest (Baseurl (blobber req)) (allocationID req)
                  [(''connection_id'', connectionID req), (''write_marker'', wmData)]]"
  unfolding commitBlobber_def Let_def
  by (auto split: sum.splits option.splits http_reply.splits if_splits)

lemma processCommit_early:
  "changes req = [] \<or> NewReferencePathRequest env (Baseurl (blobber req)) (allocationID req)
        (affectedPath (changes req)) \<noteq> None
   \<Longrightarrow> processCommit env req = (Returned (), req, [])"
  by (auto simp: processCommit_def Let_def affectedPath_last)

lemma processCommit_later:
  assumes path: "affectedPath (changes req) \<noteq> ''''"
    and mk: "NewReferencePathRequest env (Baseurl (blobber req)) (allocationID req)
        (affectedPath (changes req)) = None"
    and run: "processCommit env req = (Returned (), req', net)"
  shows "wg req' = wg req - 1 \<and> net \<noteq> []
       \<and> (\<exists>res. result req' = Some res \<and> (res = SuccessCommitResult \<or> (\<exists>e. res = ErrorCommitResult e)))"
  using run path mk unfolding processCommit_def Let_def
  by (auto split: sum.splits verified.splits prod.splits option.splits dest!: finish_Returned)

text \<open>
  C10. When the batch of changes is empty, or the reference path request cannot be built,
  \<open>processCommit\<close> returns with the request as it was (no result stored, the wait group
  not signalled) and nothing sent. On every other path on which it returns, it has stored
  a result, the success result or an error result, and signalled the wait group once.
\<close>

theorem processCommit_silent_return:
  "(changes req = [] \<or> NewReferencePathRequest env (Baseurl (blobber req)) (allocationID req)
        (affectedPath (changes req)) \<noteq> None
      \<longrightarrow> processCommit env req = (Returned (), req, []))
   \<and> (\<forall>req' net.
        affectedPath (changes req) \<noteq> ''''
        \<and> NewReferencePathRequest env (Baseurl (blobber req)) (allocationID req)
              (affectedPath (changes req)) = None
        \<and> processCommit env req = (Returned (), req', net)
      \<longrightarrow> wg req' = wg req - 1 \<and> net \<noteq> []
          \<and> (\<exists>res. result req' = Some res
                \<and> (res = SuccessCommitResult \<or> (\<exists>e. res = ErrorCommitResult e))))"
  using processCommit_early [of req env] processCommit_later [of req env] by blast

lemma processCommit_abort:
  assumes path: "affectedPath (changes req) \<noteq> ''''"
    and mk: "NewReferencePathRequest env (Baseurl (blobber req)) (allocationID req)
        (affectedPath (changes req)) = None"
    and fetch: "fetchReferencePath env (ReferencePathRequest (Baseurl (blobber req))
        (allocationID req) (affectedPath (changes req))) = Inr lR"
    and abort: "verifyLatestWM env req lR = Abort err
        \<or> (\<exists>rootRef rootRef' sz. verifyLatestWM env req lR = Verified rootRef
              \<and> applyChanges (changes req) rootRef 0 = (Some err, rootRef', sz))"
  shows "processCommit env req = finish (ErrorCommitResult err) req
           [ReferencePathRequest (Baseurl (blobber req)) (allocationID req)
              (affectedPath (changes req))]"
  using assms unfolding processCommit_def Let_def by auto

text \<open>
  C2 (as the code has it). When the node reports a latest write marker whose signature
  verifies, and the hash of the fetched tree joined with \<open>:\<close> and the marker's
  timestamp does not hash to the marker's allocation root, the attempt stores the error
  result \<open>Allocation root from latest writemarker mismatch\<close>, signals the wait group,
  and the only request that went to the network is the reference path request made
  before the check: no commit is submitted.
\<close>

theorem chain_mismatch_aborts:
  assumes path: "affectedPath (changes req) \<noteq> ''''"
    and mk: "NewReferencePathRequest env (Baseurl (blobber req)) (allocationID req)
        (affectedPath (changes req)) = None"
    and fetch: "fetchReferencePath env (ReferencePathRequest (Baseurl (blobber req))
        (allocationID req) (affectedPath (changes req))) = Inr lR"
    and latest: "LatestWM lR = Some latest"
    and sig: "VerifySignature env latest (GetClientPublicKey env) = None"
    and tree: "GetDirTree lR (allocationID req) = Inr rootRef"
    and differs: "encryption_Hash env (RefHash (CalculateHash env rootRef) @ '':''
                    @ FormatInt (Timestamp latest)) \<noteq> AllocationRoot latest"
  shows "result (fst (snd (processCommit env req)))
           = Some (ErrorCommitResult ''Allocation root from latest writemarker mismatch'')
       \<and> wg (fst (snd (processCommit env req))) = wg req - 1
       \<and> snd (snd (processCommit env req))
           = [ReferencePathRequest (Baseurl (blobber req)) (allocationID req)
                (affectedPath (changes req))]
       \<and> (0 < wg req \<longrightarrow> fst (processCommit env req) = Returned ())"
proof -
  have "verifyLatestWM env req lR = Abort ''Allocation root from latest writemarker mismatch''"
    using latest sig tree differs by (simp add: verifyLatestWM_def Let_def)
  then have "processCommit env req
      = finish (ErrorCommitResult ''Allocation root from latest writemarker mismatch'') req
           [ReferencePathRequest (Baseurl (blobber req)) (allocationID req)
              (affectedPath (changes req))]"
    using path mk fetch by (intro processCommit_abort) auto
  then show ?thesis by (simp add: finish_fields)
qed

text \<open>
  C4. The changes are applied in order to the fetched tree, adding up their sizes. When
  the changes before \<open>change\<close> succeed and \<open>change\<close> fails, the loop ends with the
  error of \<open>change\<close>, whatever changes follow it; the attempt stores that error as its
  result, signals the wait group, and has sent nothing but the reference path request:
  no commit is submitted.
\<close>

theorem first_failing_change_aborts:
  assumes path: "affectedPath (changes req) \<noteq> ''''"
    and mk: "NewReferencePathRequest env (Baseurl (blobber req)) (allocationID req)
        (affectedPath (changes req)) = None"
    and fetch: "fetchReferencePath env (ReferencePathRequest (Baseurl (blobber req))
        (allocationID req) (affectedPath (changes req))) = Inr lR"
    and verified: "verifyLatestWM env req lR = Verified rootRef"
    and batch: "changes req = pre @ change # post"
    and pre: "applyChanges pre rootRef 0 = (None, rootRef1, sz)"
    and fails: "ProcessChange change rootRef1 = (Some err, rootRef2)"
  shows "rootRef1 = foldl (\<lambda>r c. snd (ProcessChange c r)) rootRef pre
       \<and> sz = sum_list (map GetSize pre)
       \<and> applyChanges (changes req) rootRef 0 = (Some err, rootRef2, sz)
       \<and> result (fst (snd (processCommit env req))) = Some (ErrorCommitResult err)
       \<and> wg (fst (snd (processCommit env req))) = wg req - 1
       \<and> snd (snd (processCommit env req))
           = [ReferencePathRequest (Baseurl (blobber req)) (allocationID req)
                (affectedPath (changes req))]
       \<and> (0 < wg req \<longrightarrow> fst (processCommit env req) = Returned ())"
proof -
  from applyChanges_ok [OF pre]
  have a: "rootRef1 = foldl (\<lambda>r c. snd (ProcessChange c r)) rootRef pre"
    and b: "sz = sum_list (map GetSize pre)" by simp_all
  have c: "applyChanges (changes req) rootRef 0 = (Some err, rootRef2, sz)"
    unfolding batch by (rule applyChanges_fail [OF pre fails])
  have "processCommit env req = finish (ErrorCommitResult err) req
           [ReferencePathRequest (Baseurl (blobber req)) (allocationID req)
              (affectedPath (changes req))]"
    using path mk fetch verified c by (intro processCommit_abort) auto
  with a b c show ?thesis by (simp add: finish_fields)
qed

lemma processCommit_success:
  assumes fresh: "result req = None"
    and run: "processCommit env req = (Returned (), req', net)"
    and ok: "result req' = Some SuccessCommitResult"
  shows "\<exists>lR rootRef rootRef' wm wmData.
      fetchReferencePath env (ReferencePathRequest (Baseurl (blobber req))
        (allocationID req) (affectedPath (changes req))) = Inr lR
    \<and> verifyLatestWM env req lR = Verified rootRef
    \<and> applyChanges (changes req) rootRef 0 = (None, rootRef', WMSize wm)
    \<and> commitBlobber env req rootRef' (LatestWM lR) (WMSize wm) = (None, wm, tl net)
    \<and> WMSize wm = sum_list (map GetSize (changes req))
    \<and> Timestamp wm = Now env
    \<and> AllocationRoot wm = encryption_Hash env (RefHash rootRef' @ '':'' @ FormatInt (Timestamp wm))
    \<and> PreviousAllocationRoot wm
         = (case LatestWM lR of None \<Rightarrow> '''' | Some latest \<Rightarrow> AllocationRoot latest)
    \<and> Marshal env wm = Inr wmData
    \<and> net = [ReferencePathRequest (Baseurl (blobber req)) (allocationID req)
                (affectedPath (changes req)),
              CommitHTTPRequest (Baseurl (blobber req)) (allocationID req)
                [(''connection_id'', connectionID req), (''write_marker'', wmData)]]"
proof -
  let ?req = "ReferencePathRequest (Baseurl (blobber req)) (allocationID req)
                (affectedPath (changes req))"
  have neq: "ErrorCommitResult e \<noteq> SuccessCommitResult" for e
    by (simp add: ErrorCommitResult_def SuccessCommitResult_def)
  from fresh run ok obtain lR rootRef rootRef' sz wm cnet where
    fetch: "fetchReferencePath env ?req = Inr lR"
    and ver: "verifyLatestWM env req lR = Verified rootRef"
    and app: "applyChanges (changes req) rootRef 0 = (None, rootRef', sz)"
    and cb: "commitBlobber env req rootRef' (LatestWM lR) sz = (None, wm, cnet)"
    and net: "net = ?req # cnet"
    unfolding processCommit_def Let_def
    by (auto split: sum.splits verified.splits prod.splits option.splits if_splits
             dest!: finish_Returned simp: neq)
  from commitBlobber_marker [OF cb] have m: "WMSize wm = sz" "Timestamp wm = Now env"
    "AllocationRoot wm = encryption_Hash env (RefHash rootRef' @ '':'' @ FormatInt (Timestamp wm))"
    "PreviousAllocationRoot wm
         = (case LatestWM lR of None \<Rightarrow> '''' | Some latest \<Rightarrow> AllocationRoot latest)"
    by simp_all
  from commitBlobber_sent [OF cb] obtain wmData where
    d: "Marshal env wm = Inr wmData"
    "cnet = [CommitHTTPRequest (Baseurl (blobber req)) (allocationID req)
                [(''connection_id'', connectionID req), (''write_marker'', wmData)]]"
    by blast
  from applyChanges_ok [OF app] have s: "sz = sum_list (map GetSize (changes req))" by simp
  show ?thesis
    using fetch ver app cb net m d s by (intro exI [of _ lR] exI [of _ rootRef] exI [of _ rootRef'] exI [of _ wm] exI [of _ wmData]) simp
qed

text \<open>
  C1. Every marker \<open>commitBlobber\<close> builds has as allocation root the hash of the root
  hash of the tree it is given, \<open>:\<close> and its own timestamp, as previous allocation
  root the allocation root of the latest marker (the empty string when there is none),
  and as size the size it is given. In a commit that succeeds, the tree is the fetched
  tree after all the changes, the size is the sum of the sizes of the changes, the latest
  marker is the one the node reported, and the encoded marker is what is submitted. So
  when the node reports the marker of the first commit to the second, the second marker's
  previous allocation root is the first marker's allocation root.
\<close>

theorem write_marker_chain:
  "(\<forall>err wm net. commitBlobber env req rootRef latestWM sz = (err, wm, net) \<longrightarrow>
       AllocationRoot wm = encryption_Hash env (RefHash rootRef @ '':'' @ FormatInt (Timestamp wm))
     \<and> Timestamp wm = Now env
     \<and> PreviousAllocationRoot wm
          = (case latestWM of None \<Rightarrow> '''' | Some latest \<Rightarrow> AllocationRoot latest)
     \<and> WMSize wm = sz)
   \<and> (\<forall>req' net. result req = None \<and> processCommit env req = (Returned (), req', net)
          \<and> result req' = Some SuccessCommitResult \<longrightarrow>
        (\<exists>lR rootRef rootRef' wm wmData.
            fetchReferencePath env (ReferencePathRequest (Baseurl (blobber req))
              (allocationID req) (affectedPath (changes req))) = Inr lR
          \<and> verifyLatestWM env req lR = Verified rootRef
          \<and> applyChanges (changes req) rootRef 0 = (None, rootRef', WMSize wm)
          \<and> commitBlobber env req rootRef' (LatestWM lR) (WMSize wm) = (None, wm, tl net)
          \<and> WMSize wm = sum_list (map GetSize (changes req))
          \<and> Timestamp wm = Now env
          \<and> AllocationRoot wm = encryption_Hash env (RefHash rootRef' @ '':'' @ FormatInt (Timestamp wm))
          \<and> PreviousAllocationRoot wm
               = (case LatestWM lR of None \<Rightarrow> '''' | Some latest \<Rightarrow> AllocationRoot latest)
          \<and> Marshal env wm = Inr wmData
          \<and> net = [ReferencePathRequest (Baseurl (blobber req)) (allocationID req)
                      (affectedPath (changes req)),
                    CommitHTTPRequest (Baseurl (blobber req)) (allocationID req)
                      [(''connection_id'', connectionID req), (''write_marker'', wmData)]]))"
proof (intro conjI allI impI)
  fix req' net
  assume "result req = None \<and> processCommit env req = (Returned (), req', net)
    \<and> result req' = Some SuccessCommitResult"
  then show "\<exists>lR rootRef rootRef' wm wmData.
            fetchReferencePath env (ReferencePathRequest (Baseurl (blobber req))
              (allocationID req) (affectedPath (changes req))) = Inr lR
          \<and> verifyLatestWM env req lR = Verified rootRef
          \<and> applyChanges (changes req) rootRef 0 = (None, rootRef', WMSize wm)
          \<and> commitBlobber env req rootRef' (LatestWM lR) (WMSize wm) = (None, wm, tl net)
          \<and> WMSize wm = sum_list (map GetSize (changes req))
          \<and> Timestamp wm = Now env
          \<and> AllocationRoot wm = encryption_Hash env (RefHash rootRef' @ '':'' @ FormatInt (Timestamp wm))
          \<and> PreviousAllocationRoot wm
               = (case LatestWM lR of None \<Rightarrow> '''' | Some latest \<Rightarrow> AllocationRoot latest)
          \<and> Marshal env wm = Inr wmData
          \<and> net = [ReferencePathRequest (Baseurl (blobber req)) (allocationID req)
                      (affectedPath (changes req)),
                    CommitHTTPRequest (Baseurl (blobber req)) (allocationID req)
                      [(''connection_id'', connectionID req), (''write_marker'', wmData)]]"
    using processCommit_success [of req env req' net] by blast
qed (use commitBlobber_marker in \<open>blast+\<close>)

section \<open>Example runs\<close>

lemmas example_defs =
  processCommit_def affectedPath_def exampleEnv_def exampleRequest_def exampleReport_def
  exampleMarker_def fetchReferencePath_def verifyLatestWM_def finish_def commitBlobber_def
  exampleChange_def failingChange_def exampleRoot_def ErrorCommitResult_def
  SuccessCommitResult_def FormatInt_def Itoa_def dec_nat.simps Let_def

lemma run_fresh:
  "processCommit (exampleEnv (exampleReport ''r0'' None) 42)
     (exampleRequest [exampleChange ''/a'' 10, exampleChange ''/b'' 5])
   = (Returned (),
      (exampleRequest [exampleChange ''/a'' 10, exampleChange ''/b'' 5])
        \<lparr>result := Some SuccessCommitResult, wg := 0\<rparr>,
      [ReferencePathRequest ''http://b1'' ''alloc'' ''/b'',
       CommitHTTPRequest ''http://b1'' ''alloc''
         [(''connection_id'', ''conn''), (''write_marker'', ''#r0+/a+/b:42|'')]])"
  by (simp add: example_defs)

lemma run_second:
  "commitBlobber (exampleEnv (exampleReport ''r0+/a+/b'' (Some (exampleMarker ''#r0+/a+/b:42'' 42 ''signed:key''))) 50)
     (exampleRequest [exampleChange ''/c'' 3]) (exampleRoot ''r0+/a+/b+/c'')
     (Some (exampleMarker ''#r0+/a+/b:42'' 42 ''signed:key'')) 3
   = (None,
      \<lparr>AllocationRoot = ''#r0+/a+/b+/c:50'', PreviousAllocationRoot = ''#r0+/a+/b:42'',
       AllocationID = ''alloc'', WMSize = 3, BlobberID = ''b1'', Timestamp = 50,
       ClientID = ''client'', Signature = ''signed:key''\<rparr>,
      [CommitHTTPRequest ''http://b1'' ''alloc''
         [(''connection_id'', ''conn''), (''write_marker'', ''#r0+/a+/b+/c:50|#r0+/a+/b:42'')]])"
  by (simp add: example_defs)

lemma run_tampered:
  "processCommit (exampleEnv (exampleReport ''r0'' (Some (exampleMarker ''tampered'' 7 ''signed:key''))) 42)
     (exampleRequest [exampleChange ''/a'' 10])
   = (Returned (),
      (exampleRequest [exampleChange ''/a'' 10])
        \<lparr>result := Some (ErrorCommitResult ''Allocation root from latest writemarker mismatch''),
         wg := 0\<rparr>,
      [ReferencePathRequest ''http://b1'' ''alloc'' ''/a''])"
  by (simp add: example_defs)

lemma run_forged:
  "processCommit (exampleEnv (exampleReport ''r0'' (Some (exampleMarker ''tampered'' 7 ''forged''))) 42)
     (exampleRequest [exampleChange ''/a'' 10])
   = (Returned (),
      (exampleRequest [exampleChange ''/a'' 10])
        \<lparr>result := Some (ErrorCommitResult ''signature_mismatch''), wg := 0\<rparr>,
      [ReferencePathRequest ''http://b1'' ''alloc'' ''/a''])"
  by (simp add: example_defs)

lemma run_failing:
  "processCommit (exampleEnv (exampleReport ''r0'' None) 42)
     (exampleRequest [exampleChange ''/a'' 10, failingChange ''/b'' 5, exampleChange ''/c'' 1])
   = (Returned (),
      (exampleRequest [exampleChange ''/a'' 10, failingChange ''/b'' 5, exampleChange ''/c'' 1])
        \<lparr>result := Some (ErrorCommitResult ''invalid_change''), wg := 0\<rparr>,
      [ReferencePathRequest ''http://b1'' ''alloc'' ''/c''])"
  by (simp add: example_defs)

lemma run_empty:
  "processCommit (exampleEnv (exampleReport ''r0'' None) 42) (exampleRequest [])
   = (Returned (), exampleRequest [], [])"
  by (simp add: example_defs)

theorem processCommit_silent_return_witness:
  "processCommit (exampleEnv (exampleReport ''r0'' None) 42) (exampleRequest [])
     = (Returned (), exampleRequest [], [])
   \<and> result (exampleRequest []) = None
   \<and> wg ((exampleRequest [exampleChange ''/a'' 10, failingChange ''/b'' 5, exampleChange ''/c'' 1])
            \<lparr>result := Some (ErrorCommitResult ''invalid_change''), wg := 0\<rparr>)
       = wg (exampleRequest [exampleChange ''/a'' 10, failingChange ''/b'' 5, exampleChange ''/c'' 1]) - 1"
proof -
  let ?env = "exampleEnv (exampleReport ''r0'' None) 42"
  let ?req = "exampleRequest [exampleChange ''/a'' 10, failingChange ''/b'' 5, exampleChange ''/c'' 1]"
  have e: "changes (exampleRequest []) = []" by (simp add: exampleRequest_def)
  have p: "affectedPath (changes ?req) \<noteq> ''''
    \<and> NewReferencePathRequest ?env (Baseurl (blobber ?req)) (allocationID ?req)
              (affectedPath (changes ?req)) = None
    \<and> processCommit ?env ?req
        = (Returned (), ?req\<lparr>result := Some (ErrorCommitResult ''invalid_change''), wg := 0\<rparr>,
           [ReferencePathRequest ''http://b1'' ''alloc'' ''/c''])"
    using run_failing
    by (simp add: affectedPath_def exampleRequest_def exampleEnv_def exampleChange_def failingChange_def)
  from processCommit_silent_return [of "exampleRequest []" ?env] e
       processCommit_silent_return [of ?req ?env] p
  show ?thesis by (simp add: exampleRequest_def)
qed

theorem chain_mismatch_aborts_witness:
  "result (fst (snd (processCommit
      (exampleEnv (exampleReport ''r0'' (Some (exampleMarker ''tampered'' 7 ''signed:key''))) 42)
      (exampleRequest [exampleChange ''/a'' 10]))))
     = Some (ErrorCommitResult ''Allocation root from latest writemarker mismatch'')
   \<and> snd (snd (processCommit
      (exampleEnv (exampleReport ''r0'' (Some (exampleMarker ''tampered'' 7 ''signed:key''))) 42)
      (exampleRequest [exampleChange ''/a'' 10])))
     = [ReferencePathRequest ''http://b1'' ''alloc'' ''/a'']
   \<and> fst (processCommit
      (exampleEnv (exampleReport ''r0'' (Some (exampleMarker ''tampered'' 7 ''signed:key''))) 42)
      (exampleRequest [exampleChange ''/a'' 10])) = Returned ()"
proof -
  let ?latest = "exampleMarker ''tampered'' 7 ''signed:key''"
  let ?lR = "exampleReport ''r0'' (Some ?latest)"
  let ?env = "exampleEnv ?lR 42"
  let ?req = "exampleRequest [exampleChange ''/a'' 10]"
  have h1: "affectedPath (changes ?req) \<noteq> ''''"
    by (simp add: affectedPath_def exampleRequest_def exampleChange_def)
  have h2: "NewReferencePathRequest ?env (Baseurl (blobber ?req)) (allocationID ?req)
        (affectedPath (changes ?req)) = None"
    by (simp add: exampleEnv_def)
  have h3: "fetchReferencePath ?env (ReferencePathRequest (Baseurl (blobber ?req))
        (allocationID ?req) (affectedPath (changes ?req))) = Inr ?lR"
    by (simp add: fetchReferencePath_def exampleEnv_def)
  have h4: "LatestWM ?lR = Some ?latest" by (simp add: exampleReport_def)
  have h5: "VerifySignature ?env ?latest (GetClientPublicKey ?env) = None"
    by (simp add: exampleEnv_def exampleMarker_def)
  have h6: "GetDirTree ?lR (allocationID ?req) = Inr (exampleRoot ''r0'')"
    by (simp add: exampleReport_def)
  have h7: "encryption_Hash ?env (RefHash (CalculateHash ?env (exampleRoot ''r0'')) @ '':''
                    @ FormatInt (Timestamp ?latest)) \<noteq> AllocationRoot ?latest"
    by (simp add: exampleEnv_def exampleMarker_def)
  have h8: "0 < wg ?req" "affectedPath (changes ?req) = ''/a''"
    "Baseurl (blobber ?req) = ''http://b1''" "allocationID ?req = ''alloc''"
    by (simp_all add: exampleRequest_def affectedPath_def exampleChange_def)
  from chain_mismatch_aborts [OF h1 h2 h3 h4 h5 h6 h7] h8
  show ?thesis by simp
qed

text \<open>
  The signature is verified first: for a marker with a forged signature and a tampered
  allocation root the stored error is the one of the signature check, not the mismatch
  error, and the reference path request has gone to the network by then.
\<close>

theorem chain_mismatch_counterexample:
  "LatestWM (exampleReport ''r0'' (Some (exampleMarker ''tampered'' 7 ''forged'')))
     = Some (exampleMarker ''tampered'' 7 ''forged'')
   \<and> encryption_Hash (exampleEnv (exampleReport ''r0'' (Some (exampleMarker ''tampered'' 7 ''forged''))) 42)
        (RefHash (CalculateHash
           (exampleEnv (exampleReport ''r0'' (Some (exampleMarker ''tampered'' 7 ''forged''))) 42)
           (exampleRoot ''r0''))
         @ '':'' @ FormatInt (Timestamp (exampleMarker ''tampered'' 7 ''forged'')))
       \<noteq> AllocationRoot (exampleMarker ''tampered'' 7 ''forged'')
   \<and> result (fst (snd (processCommit
        (exampleEnv (exampleReport ''r0'' (Some (exampleMarker ''tampered'' 7 ''forged''))) 42)
        (exampleRequest [exampleChange ''/a'' 10]))))
       = Some (ErrorCommitResult ''signature_mismatch'')
   \<and> result (fst (snd (processCommit
        (exampleEnv (exampleReport ''r0'' (Some (exampleMarker ''tampered'' 7 ''forged''))) 42)
        (exampleRequest [exampleChange ''/a'' 10]))))
       \<noteq> Some (ErrorCommitResult ''Allocation root from latest writemarker mismatch'')
   \<and> snd (snd (processCommit
        (exampleEnv (exampleReport ''r0'' (Some (exampleMarker ''tampered'' 7 ''forged''))) 42)
        (exampleRequest [exampleChange ''/a'' 10])))
       = [ReferencePathRequest ''http://b1'' ''alloc'' ''/a'']"
  by (simp add: run_forged)
     (simp add: exampleReport_def exampleEnv_def exampleMarker_def exampleRoot_def
        ErrorCommitResult_def)

theorem first_failing_change_aborts_witness:
  "applyChanges [exampleChange ''/a'' 10, failingChange ''/b'' 5, exampleChange ''/c'' 1]
      (exampleRoot ''r0'') 0 = (Some ''invalid_change'', exampleRoot ''r0+/a'', 10)
   \<and> result (fst (snd (processCommit (exampleEnv (exampleReport ''r0'' None) 42)
        (exampleRequest [exampleChange ''/a'' 10, failingChange ''/b'' 5, exampleChange ''/c'' 1]))))
       = Some (ErrorCommitResult ''invalid_change'')
   \<and> snd (snd (processCommit (exampleEnv (exampleReport ''r0'' None) 42)
        (exampleRequest [exampleChange ''/a'' 10, failingChange ''/b'' 5, exampleChange ''/c'' 1])))
       = [ReferencePathRequest ''http://b1'' ''alloc'' ''/c'']"
proof -
  let ?lR = "exampleReport ''r0'' None"
  let ?env = "exampleEnv ?lR 42"
  let ?req = "exampleRequest [exampleChange ''/a'' 10, failingChange ''/b'' 5, exampleChange ''/c'' 1]"
  have h1: "affectedPath (changes ?req) \<noteq> ''''"
    by (simp add: affectedPath_def exampleRequest_def exampleChange_def)
  have h2: "NewReferencePathRequest ?env (Baseurl (blobber ?req)) (allocationID ?req)
        (affectedPath (changes ?req)) = None"
    by (simp add: exampleEnv_def)
  have h3: "fetchReferencePath ?env (ReferencePathRequest (Baseurl (blobber ?req))
        (allocationID ?req) (affectedPath (changes ?req))) = Inr ?lR"
    by (simp add: fetchReferencePath_def exampleEnv_def)
  have h4: "verifyLatestWM ?env ?req ?lR = Verified (exampleRoot ''r0'')"
    by (simp add: verifyLatestWM_def exampleReport_def)
  have h5: "changes ?req = [exampleChange ''/a'' 10] @ failingChange ''/b'' 5 # [exampleChange ''/c'' 1]"
    by (simp add: exampleRequest_def)
  have h6: "applyChanges [exampleChange ''/a'' 10] (exampleRoot ''r0'') 0
      = (None, exampleRoot ''r0+/a'', 10)"
    by (simp add: exampleChange_def exampleRoot_def)
  have h7: "ProcessChange (failingChange ''/b'' 5) (exampleRoot ''r0+/a'')
      = (Some ''invalid_change'', exampleRoot ''r0+/a'')"
    by (simp add: failingChange_def)
  have h8: "affectedPath (changes ?req) = ''/c''"
    "Baseurl (blobber ?req) = ''http://b1''" "allocationID ?req = ''alloc''"
    "changes ?req = [exampleChange ''/a'' 10, failingChange ''/b'' 5, exampleChange ''/c'' 1]"
    by (simp_all add: exampleRequest_def affectedPath_def exampleChange_def)
  from first_failing_change_aborts [OF h1 h2 h3 h4 h5 h6 h7] h8
  show ?thesis by simp
qed

theorem write_marker_chain_witness:
  "(\<exists>lR rootRef rootRef' wm wmData.
        fetchReferencePath (exampleEnv (exampleReport ''r0'' None) 42)
          (ReferencePathRequest
             (Baseurl (blobber (exampleRequest [exampleChange ''/a'' 10, exampleChange ''/b'' 5])))
             (allocationID (exampleRequest [exampleChange ''/a'' 10, exampleChange ''/b'' 5]))
             (affectedPath (changes (exampleRequest [exampleChange ''/a'' 10, exampleChange ''/b'' 5]))))
          = Inr lR
      \<and> verifyLatestWM (exampleEnv (exampleReport ''r0'' None) 42)
          (exampleRequest [exampleChange ''/a'' 10, exampleChange ''/b'' 5]) lR = Verified rootRef
      \<and> applyChanges (changes (exampleRequest [exampleChange ''/a'' 10, exampleChange ''/b'' 5]))
          rootRef 0 = (None, rootRef', WMSize wm)
      \<and> commitBlobber (exampleEnv (exampleReport ''r0'' None) 42)
          (exampleRequest [exampleChange ''/a'' 10, exampleChange ''/b'' 5])
          rootRef' (LatestWM lR) (WMSize wm)
          = (None, wm, tl [ReferencePathRequest ''http://b1'' ''alloc'' ''/b'',
                CommitHTTPRequest ''http://b1'' ''alloc''
                  [(''connection_id'', ''conn''), (''write_marker'', ''#r0+/a+/b:42|'')]])
      \<and> WMSize wm = sum_list (map GetSize
            (changes (exampleRequest [exampleChange ''/a'' 10, exampleChange ''/b'' 5])))
      \<and> Timestamp wm = Now (exampleEnv (exampleReport ''r0'' None) 42)
      \<and> AllocationRoot wm = encryption_Hash (exampleEnv (exampleReport ''r0'' None) 42)
                               (RefHash rootRef' @ '':'' @ FormatInt (Timestamp wm))
      \<and> PreviousAllocationRoot wm
           = (case LatestWM lR of None \<Rightarrow> '''' | Some latest \<Rightarrow> AllocationRoot latest)
      \<and> Marshal (exampleEnv (exampleReport ''r0'' None) 42) wm = Inr wmData
      \<and> [ReferencePathRequest ''http://b1'' ''alloc'' ''/b'',
          CommitHTTPRequest ''http://b1'' ''alloc''
            [(''connection_id'', ''conn''), (''write_marker'', ''#r0+/a+/b:42|'')]]
         = [ReferencePathRequest
              (Baseurl (blobber (exampleRequest [exampleChange ''/a'' 10, exampleChange ''/b'' 5])))
              (allocationID (exampleRequest [exampleChange ''/a'' 10, exampleChange ''/b'' 5]))
              (affectedPath (changes (exampleRequest [exampleChange ''/a'' 10, exampleChange ''/b'' 5]))),
            CommitHTTPRequest
              (Baseurl (blobber (exampleRequest [exampleChange ''/a'' 10, exampleChange ''/b'' 5])))
              (allocationID (exampleRequest [exampleChange ''/a'' 10, exampleChange ''/b'' 5]))
              [(''connection_id'',
                connectionID (exampleRequest [exampleChange ''/a'' 10, exampleChange ''/b'' 5])),
               (''write_marker'', wmData)]])
   \<and> PreviousAllocationRoot
        \<lparr>AllocationRoot = ''#r0+/a+/b+/c:50'', PreviousAllocationRoot = ''#r0+/a+/b:42'',
         AllocationID = ''alloc'', WMSize = 3, BlobberID = ''b1'', Timestamp = 50,
         ClientID = ''client'', Signature = ''signed:key''\<rparr>
       = AllocationRoot (exampleMarker ''#r0+/a+/b:42'' 42 ''signed:key'')"
proof -
  let ?env = "exampleEnv (exampleReport ''r0'' None) 42"
  let ?req = "exampleRequest [exampleChange ''/a'' 10, exampleChange ''/b'' 5]"
  let ?latest = "exampleMarker ''#r0+/a+/b:42'' 42 ''signed:key''"
  have h: "result ?req = None \<and> processCommit ?env ?req
     = (Returned (), ?req\<lparr>result := Some SuccessCommitResult, wg := 0\<rparr>,
        [ReferencePathRequest ''http://b1'' ''alloc'' ''/b'',
         CommitHTTPRequest ''http://b1'' ''alloc''
           [(''connection_id'', ''conn''), (''write_marker'', ''#r0+/a+/b:42|'')]])
     \<and> result (?req\<lparr>result := Some SuccessCommitResult, wg := 0\<rparr>) = Some SuccessCommitResult"
    using run_fresh by (simp add: exampleRequest_def)
  note first = write_marker_chain [of ?env ?req, THEN conjunct2, rule_format, OF h]
  have second: "PreviousAllocationRoot
        \<lparr>AllocationRoot = ''#r0+/a+/b+/c:50'', PreviousAllocationRoot = ''#r0+/a+/b:42'',
         AllocationID = ''alloc'', WMSize = 3, BlobberID = ''b1'', Timestamp = 50,
         ClientID = ''client'', Signature = ''signed:key''\<rparr>
       = AllocationRoot ?latest"
    using write_marker_chain [of "exampleEnv (exampleReport ''r0+/a+/b'' (Some ?latest)) 50"
        "exampleRequest [exampleChange ''/c'' 3]" "exampleRoot ''r0+/a+/b+/c''" "Some ?latest" 3,
        THEN conjunct1, rule_format, OF run_second]
    by simp
  from first second show ?thesis by (rule conjI)
qed

lemmas list_example_defs =
  mergeResponse_def mergeChild_def fileFields_def actualHash_def promoted_def initMerge_def
  emptyListResult_def exampleEnv_def exampleFile_def exampleResponse_def
  exampleListRequest_def List.map_filter_def Let_def

section \<open>Listing: proofs\<close>

lemma task_publishes_once:
  "\<exists>r. getListInfoFromBlobber env req b idx = ([r], 1) \<and> blobberIdx r = idx"
  unfolding getListInfoFromBlobber_def Let_def
  by (auto split: option.splits http_reply.splits sum.splits)

lemma tasks_in_schedule:
  "\<forall>i \<in> set schedule. i < n \<Longrightarrow>
   map blobberIdx (concat (map (\<lambda>i. fst (map (\<lambda>i. getListInfoFromBlobber env req (bs ! i) i) [0..<n] ! i))
                            schedule)) = schedule"
proof (induction schedule)
  case Nil
  then show ?case by simp
next
  case (Cons i schedule)
  then have i: "i < n" by simp
  obtain r where "getListInfoFromBlobber env req (bs ! i) i = ([r], 1)" "blobberIdx r = i"
    using task_publishes_once by blast
  with Cons i show ?case by simp
qed

lemma tasks_done: "sum_list (map snd (map (\<lambda>i. getListInfoFromBlobber env req (bs ! i) i) is)) = length is"
proof (induction "is")
  case Nil
  then show ?case by simp
next
  case (Cons i "is")
  obtain r where "getListInfoFromBlobber env req (bs ! i) i = ([r], 1)"
    using task_publishes_once by blast
  with Cons show ?case by simp
qed

lemma schedule_length:
  assumes "distinct schedule" and "set schedule = {..<n}"
  shows "length schedule = n"
proof -
  have "length schedule = card (set schedule)" using assms(1) by (simp add: distinct_card)
  then show ?thesis using assms(2) by simp
qed

text \<open>
  C9. On every path through \<open>getListInfoFromBlobber\<close> (the request cannot be built,
  the transport fails, the body cannot be read, the status is not 200, the body or the
  tree cannot be decoded, or all succeeds) the task sends exactly one response, carrying
  its blobber index, and calls \<open>Done\<close> once. So when each task runs once, in whatever
  order, \<open>getlistFromBlobbers\<close> returns, with exactly one response per blobber.
\<close>

theorem list_task_publishes_once:
  "(\<exists>r. getListInfoFromBlobber env req b idx = ([r], 1) \<and> blobberIdx r = idx)
   \<and> (distinct schedule \<and> set schedule = {..<length (blobbers req)} \<longrightarrow>
        (\<exists>infos. getlistFromBlobbers env req schedule = Some infos
           \<and> length infos = length (blobbers req)
           \<and> map blobberIdx infos = schedule))"
proof (intro conjI impI)
  show "\<exists>r. getListInfoFromBlobber env req b idx = ([r], 1) \<and> blobberIdx r = idx"
    by (rule task_publishes_once)
next
  assume s: "distinct schedule \<and> set schedule = {..<length (blobbers req)}"
  then have len: "length schedule = length (blobbers req)"
    by (intro schedule_length) simp_all
  let ?n = "length (blobbers req)"
  let ?tasks = "map (\<lambda>i. getListInfoFromBlobber env req (blobbers req ! i) i) [0..<?n]"
  let ?ch = "concat (map (\<lambda>i. fst (?tasks ! i)) schedule)"
  from s have inr: "\<forall>i \<in> set schedule. i < ?n" by simp
  then have flt: "filter (\<lambda>i. i < ?n) schedule = schedule" by simp
  from tasks_in_schedule [OF inr, of env req "blobbers req"]
  have idx: "map blobberIdx ?ch = schedule" .
  have dones: "sum_list (map snd ?tasks) = ?n"
    using tasks_done [of env req "blobbers req" "[0..<?n]"] by simp
  from idx have chlen: "length ?ch = length schedule" by (metis length_map)
  have "getlistFromBlobbers env req schedule = Some ?ch"
    unfolding getlistFromBlobbers_def Let_def flt using dones chlen len by simp
  with idx chlen len show "\<exists>infos. getlistFromBlobbers env req schedule = Some infos
           \<and> length infos = length (blobbers req)
           \<and> map blobberIdx infos = schedule" by simp
qed

theorem list_task_publishes_once_witness:
  "distinct [2, 0, 1 :: nat] \<and> set [2, 0, 1] = {..<length (blobbers (exampleListRequest 3))}
   \<and> (\<exists>infos. getlistFromBlobbers (exampleEnv (exampleReport ''r0'' None) 42)
          (exampleListRequest 3) [2, 0, 1] = Some infos
        \<and> length infos = length (blobbers (exampleListRequest 3))
        \<and> map blobberIdx infos = [2, 0, 1])"
proof -
  have h: "distinct [2, 0, 1 :: nat] \<and> set [2, 0, 1] = {..<length (blobbers (exampleListRequest 3))}"
    by (auto simp: exampleListRequest_def)
  from list_task_publishes_once [of "exampleEnv (exampleReport ''r0'' None) 42"
      "exampleListRequest 3" _ _ "[2, 0, 1]", THEN conjunct2, rule_format, OF h] h
  show ?thesis by blast
qed

lemma mergeChild_Returned:
  assumes "mergeChild env req st child = Returned st'"
  shows "\<exists>r. childResultMap st' = (childResultMap st)(childKey env child \<mapsto> r)
     \<and> Path r = (case childResultMap st (childKey env child) of
                   None \<Rightarrow> GetPath child | Some r0 \<Rightarrow> Path r0)
     \<and> consensus r = (case childResultMap st (childKey env child) of
                        None \<Rightarrow> 1 | Some r0 \<Rightarrow> consensus r0 + 1)
     \<and> (if isConsensusMin env (consensus r) (consensusThresh r) (fullconsensus r)
            \<and> selected st (GetPath child) = None
         then Children (merged st') = Children (merged st) @ [childKey env child]
            \<and> selected st' = (selected st)(GetPath child \<mapsto> childKey env child)
         else Children (merged st') = Children (merged st) \<and> selected st' = selected st)"
proof (cases "fileFields env child")
  case (Panicked msg)
  with assms show ?thesis by (simp add: mergeChild_def)
next
  case (Returned fl)
  then have fl: "fl = (if GetType child = FILE env then AsFileRef child else None)"
    by (auto simp: fileFields_def split: if_splits option.splits)
  then have key: "actualHash env child fl = childKey env child"
    by (simp add: childKey_def)
  show ?thesis
    using assms unfolding mergeChild_def Returned outcome.case Let_def key
    by (cases "childResultMap st (childKey env child)"; cases fl)
       (auto simp: emptyListResult_def split: if_splits)
qed

lemma merge_invI:
  assumes "distinct (Children (merged st))"
    and "\<And>k. k \<in> set (Children (merged st)) \<Longrightarrow>
           \<exists>r. childResultMap st k = Some r \<and> selected st (Path r) = Some k"
    and "\<And>k r. childResultMap st k = Some r \<Longrightarrow>
           \<exists>c \<in> cs. childKey env c = k \<and> GetPath c = Path r"
  shows "merge_inv env cs st"
  unfolding merge_inv_def using assms by blast

lemma merge_inv_child:
  assumes inv: "merge_inv env cs st"
    and c: "child \<in> cs"
    and H: "\<forall>c1 \<in> cs. \<forall>c2 \<in> cs. childKey env c1 = childKey env c2 \<longrightarrow> GetPath c1 = GetPath c2"
    and step: "mergeChild env req st child = Returned st'"
  shows "merge_inv env cs st'"
proof -
  let ?k = "childKey env child"
  let ?p = "GetPath child"
  from inv have d: "distinct (Children (merged st))"
    and sel: "\<And>k. k \<in> set (Children (merged st)) \<Longrightarrow>
                \<exists>r. childResultMap st k = Some r \<and> selected st (Path r) = Some k"
    and pth: "\<And>k r. childResultMap st k = Some r \<Longrightarrow>
                \<exists>c \<in> cs. childKey env c = k \<and> GetPath c = Path r"
    unfolding merge_inv_def by blast+
  from mergeChild_Returned [OF step] obtain r where
    m: "childResultMap st' = (childResultMap st)(?k \<mapsto> r)"
    and pr: "Path r = (case childResultMap st ?k of None \<Rightarrow> ?p | Some r0 \<Rightarrow> Path r0)"
    and pro: "if isConsensusMin env (consensus r) (consensusThresh r) (fullconsensus r)
            \<and> selected st ?p = None
         then Children (merged st') = Children (merged st) @ [?k]
            \<and> selected st' = (selected st)(?p \<mapsto> ?k)
         else Children (merged st') = Children (merged st) \<and> selected st' = selected st"
    by blast
  have old: "Path r0 = ?p" if "childResultMap st ?k = Some r0" for r0
  proof -
    from pth [OF that] obtain c' where "c' \<in> cs" "childKey env c' = ?k" "GetPath c' = Path r0"
      by blast
    with H c show ?thesis by metis
  qed
  have path_r: "Path r = ?p"
    using pr old by (cases "childResultMap st ?k") simp_all
  have pth': "\<exists>c \<in> cs. childKey env c = k \<and> GetPath c = Path r'"
    if "childResultMap st' k = Some r'" for k r'
  proof (cases "k = ?k")
    case True
    with that m have "r' = r" by simp
    with True path_r have "childKey env child = k \<and> GetPath child = Path r'" by simp
    with c show ?thesis by (intro bexI [of _ child])
  next
    case False
    with that m have "childResultMap st k = Some r'" by simp
    then show ?thesis by (rule pth)
  qed
  show ?thesis
  proof (cases "isConsensusMin env (consensus r) (consensusThresh r) (fullconsensus r)
            \<and> selected st ?p = None")
    case True
    with pro have ch: "Children (merged st') = Children (merged st) @ [?k]"
      and s: "selected st' = (selected st)(?p \<mapsto> ?k)" by simp_all
    from True have free: "selected st ?p = None" by simp
    have notin: "?k \<notin> set (Children (merged st))"
    proof
      assume "?k \<in> set (Children (merged st))"
      from sel [OF this] obtain r0 where r0: "childResultMap st ?k = Some r0"
        "selected st (Path r0) = Some ?k" by blast
      with old [OF r0(1)] free show False by simp
    qed
    have d': "distinct (Children (merged st'))" using d notin ch by simp
    have sel': "\<exists>r'. childResultMap st' k = Some r' \<and> selected st' (Path r') = Some k"
      if "k \<in> set (Children (merged st'))" for k
    proof (cases "k = ?k")
      case True
      then show ?thesis using m s path_r by simp
    next
      case False
      with that ch have "k \<in> set (Children (merged st))" by simp
      from sel [OF this] obtain r0 where r0: "childResultMap st k = Some r0"
        "selected st (Path r0) = Some k" by blast
      from r0(2) free have "Path r0 \<noteq> ?p" by auto
      with r0 False m s show ?thesis by simp
    qed
    show ?thesis by (rule merge_invI [OF d' sel' pth'])
  next
    case False
    with pro have ch: "Children (merged st') = Children (merged st)"
      and s: "selected st' = selected st" by simp_all
    have sel': "\<exists>r'. childResultMap st' k = Some r' \<and> selected st' (Path r') = Some k"
      if "k \<in> set (Children (merged st'))" for k
    proof -
      from that ch have "k \<in> set (Children (merged st))" by simp
      from sel [OF this] obtain r0 where r0: "childResultMap st k = Some r0"
        "selected st (Path r0) = Some k" by blast
      show ?thesis
      proof (cases "k = ?k")
        case True
        with r0 old have "selected st ?p = Some ?k" by simp
        with True m s path_r show ?thesis by simp
      next
        case False
        with r0 m s show ?thesis by simp
      qed
    qed
    have d': "distinct (Children (merged st'))" using d ch by simp
    show ?thesis by (rule merge_invI [OF d' sel' pth'])
  qed
qed

lemma merge_inv_children:
  assumes H: "\<forall>c1 \<in> cs. \<forall>c2 \<in> cs. childKey env c1 = childKey env c2 \<longrightarrow> GetPath c1 = GetPath c2"
  shows "merge_inv env cs st \<Longrightarrow> set children \<subseteq> cs \<Longrightarrow>
         mergeChildren env req st children = Returned st' \<Longrightarrow> merge_inv env cs st'"
proof (induction children arbitrary: st)
  case Nil
  then show ?case by simp
next
  case (Cons child children)
  from Cons.prems(3) obtain st1 where
    s1: "mergeChild env req st child = Returned st1"
    and rest: "mergeChildren env req st1 children = Returned st'"
    by (cases "mergeChild env req st child") simp_all
  from Cons.prems(2) have c: "child \<in> cs" and sub: "set children \<subseteq> cs" by simp_all
  have "merge_inv env cs st1"
    by (rule merge_inv_child [OF Cons.prems(1) c H s1])
  then show ?case using sub rest by (rule Cons.IH)
qed

lemma merge_inv_frame:
  "Children (merged st') = Children (merged st) \<Longrightarrow> selected st' = selected st
   \<Longrightarrow> childResultMap st' = childResultMap st
   \<Longrightarrow> merge_inv env cs st' = merge_inv env cs st"
  by (simp add: merge_inv_def)

lemma merge_inv_response:
  assumes inv: "merge_inv env cs st"
    and sub: "set (mergedChildren [ti]) \<subseteq> cs"
    and H: "\<forall>c1 \<in> cs. \<forall>c2 \<in> cs. childKey env c1 = childKey env c2 \<longrightarrow> GetPath c1 = GetPath c2"
    and step: "mergeResponse env req st ti = Returned st'"
  shows "merge_inv env cs st'"
proof (cases "err' ti = None \<and> ref ti \<noteq> None")
  case False
  then have "st' = st\<lparr>reqConsensus := 0\<rparr>"
    using step by (auto simp: mergeResponse_def Let_def split: option.splits)
  with inv show ?thesis by (simp add: merge_inv_def)
next
  case True
  then obtain tree where t: "err' ti = None" "ref ti = Some tree" by auto
  let ?result = "(merged st)\<lparr>Name := GetName tree, Path := GetPath tree, Type := GetType tree\<rparr>"
  let ?st0 = "st\<lparr>reqConsensus := 0, merged :=
                (if GetType tree = DIRECTORY env then ?result\<lparr>Size := - 1\<rparr> else ?result)\<rparr>"
  from step t obtain st1 where
    run: "mergeChildren env req ?st0 (RefChildren tree) = Returned st1"
    and fin: "st' = st1\<lparr>merged := (merged st1)
                 \<lparr>NumBlocks := foldl (\<lambda>n child. n + NumBlocks child)
                                 (NumBlocks (merged st1)) (promoted st1)\<rparr>\<rparr>"
    by (auto simp: mergeResponse_def Let_def split: outcome.splits cong: if_cong)
  have "merge_inv env cs ?st0 = merge_inv env cs st"
    by (rule merge_inv_frame) simp_all
  with inv have i0: "merge_inv env cs ?st0" by simp
  have "set (RefChildren tree) \<subseteq> cs" using sub t by (simp add: mergedChildren_def)
  from merge_inv_children [OF H i0 this run] have "merge_inv env cs st1" .
  moreover have "merge_inv env cs st' = merge_inv env cs st1"
    unfolding fin by (rule merge_inv_frame) simp_all
  ultimately show ?thesis by simp
qed

lemma mergedChildren_Cons:
  "mergedChildren (ti # rest) = mergedChildren [ti] @ mergedChildren rest"
  by (simp add: mergedChildren_def)

lemma merge_inv_responses:
  assumes H: "\<forall>c1 \<in> cs. \<forall>c2 \<in> cs. childKey env c1 = childKey env c2 \<longrightarrow> GetPath c1 = GetPath c2"
  shows "merge_inv env cs st \<Longrightarrow> set (mergedChildren lR) \<subseteq> cs \<Longrightarrow>
         mergeResponses env req st lR = Returned st' \<Longrightarrow> merge_inv env cs st'"
proof (induction lR arbitrary: st)
  case Nil
  then show ?case by simp
next
  case (Cons ti rest)
  from Cons.prems(3) obtain st1 where
    s1: "mergeResponse env req st ti = Returned st1"
    and rest: "mergeResponses env req st1 rest = Returned st'"
    by (cases "mergeResponse env req st ti") simp_all
  from Cons.prems(2) have sub: "set (mergedChildren [ti]) \<subseteq> cs" "set (mergedChildren rest) \<subseteq> cs"
    by (simp_all add: mergedChildren_Cons [of ti rest])
  have "merge_inv env cs st1"
    by (rule merge_inv_response [OF Cons.prems(1) sub(1) H s1])
  then show ?case using sub(2) rest by (rule Cons.IH)
qed

lemma merge_inv_init: "merge_inv env cs (initMerge req)"
  by (simp add: merge_inv_def initMerge_def emptyListResult_def)

text \<open>
  C8 (as the code has it). Counting a child into its record appends the record to the
  child list of the result exactly when the record's counter then has the consensus
  minimum and no record has been promoted for the path of the child, so never before the
  minimum is reached. When children with the same key have the same path, no record is
  in the child list twice after the merge, and every record in it is the one selected for
  its path.
\<close>

theorem child_promoted_at_most_once:
  "(\<forall>st'. mergeChild env req st child = Returned st' \<longrightarrow>
      (\<exists>r. childResultMap st' (childKey env child) = Some r
         \<and> Children (merged st') =
             (if isConsensusMin env (consensus r) (consensusThresh r) (fullconsensus r)
                 \<and> selected st (GetPath child) = None
              then Children (merged st) @ [childKey env child]
              else Children (merged st))))
   \<and> ((\<forall>c1 \<in> set (mergedChildren lR). \<forall>c2 \<in> set (mergedChildren lR).
          childKey env c1 = childKey env c2 \<longrightarrow> GetPath c1 = GetPath c2) \<longrightarrow>
       (\<forall>st'. mergeResponses env req (initMerge req) lR = Returned st' \<longrightarrow>
          distinct (Children (merged st'))
          \<and> (\<forall>k \<in> set (Children (merged st')).
                \<exists>r. childResultMap st' k = Some r \<and> selected st' (Path r) = Some k)))"
proof -
  have step: "\<forall>st'. mergeChild env req st child = Returned st' \<longrightarrow>
      (\<exists>r. childResultMap st' (childKey env child) = Some r
         \<and> Children (merged st') =
             (if isConsensusMin env (consensus r) (consensusThresh r) (fullconsensus r)
                 \<and> selected st (GetPath child) = None
              then Children (merged st) @ [childKey env child]
              else Children (merged st)))"
  proof (intro allI impI)
    fix st'
    assume "mergeChild env req st child = Returned st'"
    from mergeChild_Returned [OF this] obtain r where
      m: "childResultMap st' = (childResultMap st)(childKey env child \<mapsto> r)"
      and pro: "if isConsensusMin env (consensus r) (consensusThresh r) (fullconsensus r)
              \<and> selected st (GetPath child) = None
           then Children (merged st') = Children (merged st) @ [childKey env child]
              \<and> selected st' = (selected st)(GetPath child \<mapsto> childKey env child)
           else Children (merged st') = Children (merged st) \<and> selected st' = selected st"
      by blast
    from m have "childResultMap st' (childKey env child) = Some r" by simp
    moreover from pro have "Children (merged st') =
               (if isConsensusMin env (consensus r) (consensusThresh r) (fullconsensus r)
                   \<and> selected st (GetPath child) = None
                then Children (merged st) @ [childKey env child]
                else Children (merged st))"
      by (simp split: if_splits)
    ultimately show "\<exists>r. childResultMap st' (childKey env child) = Some r
           \<and> Children (merged st') =
               (if isConsensusMin env (consensus r) (consensusThresh r) (fullconsensus r)
                   \<and> selected st (GetPath child) = None
                then Children (merged st) @ [childKey env child]
                else Children (merged st))" by blast
  qed
  have whole: "(\<forall>c1 \<in> set (mergedChildren lR). \<forall>c2 \<in> set (mergedChildren lR).
          childKey env c1 = childKey env c2 \<longrightarrow> GetPath c1 = GetPath c2) \<longrightarrow>
       (\<forall>st'. mergeResponses env req (initMerge req) lR = Returned st' \<longrightarrow>
          distinct (Children (merged st'))
          \<and> (\<forall>k \<in> set (Children (merged st')).
                \<exists>r. childResultMap st' k = Some r \<and> selected st' (Path r) = Some k))"
  proof (intro impI allI)
    fix st'
    assume H: "\<forall>c1 \<in> set (mergedChildren lR). \<forall>c2 \<in> set (mergedChildren lR).
            childKey env c1 = childKey env c2 \<longrightarrow> GetPath c1 = GetPath c2"
      and run: "mergeResponses env req (initMerge req) lR = Returned st'"
    have "merge_inv env (set (mergedChildren lR)) st'"
      by (rule merge_inv_responses [OF H merge_inv_init subset_refl run])
    then show "distinct (Children (merged st'))
            \<and> (\<forall>k \<in> set (Children (merged st')).
                  \<exists>r. childResultMap st' k = Some r \<and> selected st' (Path r) = Some k)"
      unfolding merge_inv_def by simp
  qed
  from step whole show ?thesis by (rule conjI)
qed

theorem child_promoted_at_most_once_witness:
  "\<exists>st'. mergeResponses (exampleEnv (exampleReport ''r0'' None) 42) (exampleListRequest 4)
          (initMerge (exampleListRequest 4))
          [exampleResponse 0 [exampleFile ''/a'' ''h1''],
           exampleResponse 1 [exampleFile ''/a'' ''h1''],
           exampleResponse 2 [exampleFile ''/a'' ''h2''],
           exampleResponse 3 [exampleFile ''/a'' ''h2'']] = Returned st'
        \<and> distinct (Children (merged st'))"
proof -
  let ?env = "exampleEnv (exampleReport ''r0'' None) 42"
  let ?lR = "[exampleResponse 0 [exampleFile ''/a'' ''h1''],
         exampleResponse 1 [exampleFile ''/a'' ''h1''],
         exampleResponse 2 [exampleFile ''/a'' ''h2''],
         exampleResponse 3 [exampleFile ''/a'' ''h2'']]"
  have H: "\<forall>c1 \<in> set (mergedChildren ?lR). \<forall>c2 \<in> set (mergedChildren ?lR).
       childKey ?env c1 = childKey ?env c2 \<longrightarrow> GetPath c1 = GetPath c2"
    by (simp add: mergedChildren_def exampleResponse_def exampleFile_def)
  have "(case mergeResponses ?env (exampleListRequest 4) (initMerge (exampleListRequest 4)) ?lR of
           Returned st' \<Rightarrow> True | Panicked msg \<Rightarrow> False)"
    by (simp add: list_example_defs)
  then obtain st' where run: "mergeResponses ?env (exampleListRequest 4)
      (initMerge (exampleListRequest 4)) ?lR = Returned st'"
    by (cases "mergeResponses ?env (exampleListRequest 4) (initMerge (exampleListRequest 4)) ?lR")
       simp_all
  from child_promoted_at_most_once [of ?env "exampleListRequest 4" _ _ ?lR,
      THEN conjunct2, THEN mp, OF H, THEN spec, THEN mp, OF run]
  have "distinct (Children (merged st'))" by simp
  with run show ?thesis by blast
qed

text \<open>
  The guard is the map \<open>selected\<close>, keyed by the path of the child and not by the key
  of the record. Two blobbers report the file \<open>/a\<close> with content hash \<open>h1\<close> and two
  with content hash \<open>h2\<close>, and two agreeing responses are the minimum: the record of
  \<open>h2\<close> reaches the minimum at the fourth response and is not promoted, because the
  record of \<open>h1\<close> was promoted for the same path.
\<close>

theorem second_version_not_promoted:
  "is_Returned (mergeResponses (exampleEnv (exampleReport ''r0'' None) 42) (exampleListRequest 4)
     (initMerge (exampleListRequest 4))
     [exampleResponse 0 [exampleFile ''/a'' ''h1''],
      exampleResponse 1 [exampleFile ''/a'' ''h1''],
      exampleResponse 2 [exampleFile ''/a'' ''h2''],
      exampleResponse 3 [exampleFile ''/a'' ''h2'']])
   \<and> Children (merged (returned (mergeResponses (exampleEnv (exampleReport ''r0'' None) 42)
       (exampleListRequest 4) (initMerge (exampleListRequest 4))
       [exampleResponse 0 [exampleFile ''/a'' ''h1''],
        exampleResponse 1 [exampleFile ''/a'' ''h1''],
        exampleResponse 2 [exampleFile ''/a'' ''h2''],
        exampleResponse 3 [exampleFile ''/a'' ''h2'']])))
     = [''#/a:h1'']
   \<and> childKey (exampleEnv (exampleReport ''r0'' None) 42) (exampleFile ''/a'' ''h2'') = ''#/a:h2''
   \<and> map_option consensus (childResultMap (returned (mergeResponses
       (exampleEnv (exampleReport ''r0'' None) 42)
       (exampleListRequest 4) (initMerge (exampleListRequest 4))
       [exampleResponse 0 [exampleFile ''/a'' ''h1''],
        exampleResponse 1 [exampleFile ''/a'' ''h1''],
        exampleResponse 2 [exampleFile ''/a'' ''h2''],
        exampleResponse 3 [exampleFile ''/a'' ''h2'']])) ''#/a:h2'')
     = Some 2
   \<and> isConsensusMin (exampleEnv (exampleReport ''r0'' None) 42) 2
       (consensusThresh (exampleListRequest 4)) (fullconsensus (exampleListRequest 4))"
  by (simp add: list_example_defs childKey_def)

text \<open>
  Why the condition on the keys: the directory \<open>/a:b\<close> and the file \<open>/a\<close> with
  content hash \<open>b\<close> have the same key and different paths, so they are counted into
  one record, which is appended once for each of the two paths.
\<close>

lemma colliding_keys_appended_twice:
  "is_Returned (mergeResponses (exampleEnv (exampleReport ''r0'' None) 42) (exampleListRequest 2)
     (initMerge (exampleListRequest 2))
     [exampleResponse 0 [RefEntity ''d'' ''a:b'' ''/a:b'' '''' 0 [] None, exampleFile ''/a'' ''b''],
      exampleResponse 1 [RefEntity ''d'' ''a:b'' ''/a:b'' '''' 0 [] None, exampleFile ''/a'' ''b'']])
   \<and> Children (merged (returned (mergeResponses (exampleEnv (exampleReport ''r0'' None) 42)
       (exampleListRequest 2) (initMerge (exampleListRequest 2))
       [exampleResponse 0 [RefEntity ''d'' ''a:b'' ''/a:b'' '''' 0 [] None, exampleFile ''/a'' ''b''],
        exampleResponse 1 [RefEntity ''d'' ''a:b'' ''/a:b'' '''' 0 [] None, exampleFile ''/a'' ''b'']])))
     = [''#/a:b'', ''#/a:b'']"
  by (simp add: list_example_defs)

text \<open>
  C7 fails on the code. The loop that adds the block counts of the promoted children to
  \<open>result.NumBlocks\<close> is inside the loop over the responses, so it runs once per
  response that is merged, each time over all the children promoted so far. Three
  blobbers report the file \<open>/a\<close> with five blocks and two agreeing responses are the
  minimum: the one promoted child ends with 15 blocks and the root with 25.
\<close>

theorem root_numblocks_counts_children_again:
  "is_Returned (mergeResponses (exampleEnv (exampleReport ''r0'' None) 42) (exampleListRequest 3)
     (initMerge (exampleListRequest 3))
     [exampleResponse 0 [exampleFile ''/a'' ''h1''],
      exampleResponse 1 [exampleFile ''/a'' ''h1''],
      exampleResponse 2 [exampleFile ''/a'' ''h1'']])
   \<and> NumBlocks (merged (returned (mergeResponses (exampleEnv (exampleReport ''r0'' None) 42)
       (exampleListRequest 3) (initMerge (exampleListRequest 3))
       [exampleResponse 0 [exampleFile ''/a'' ''h1''],
        exampleResponse 1 [exampleFile ''/a'' ''h1''],
        exampleResponse 2 [exampleFile ''/a'' ''h1'']]))) = 25
   \<and> map NumBlocks (promoted (returned (mergeResponses (exampleEnv (exampleReport ''r0'' None) 42)
       (exampleListRequest 3) (initMerge (exampleListRequest 3))
       [exampleResponse 0 [exampleFile ''/a'' ''h1''],
        exampleResponse 1 [exampleFile ''/a'' ''h1''],
        exampleResponse 2 [exampleFile ''/a'' ''h1'']]))) = [15]"
  by (simp add: list_example_defs)

end
